theory Spec2Isabelle
  imports Main
begin

section \<open>JavaScript strings\<close>

text \<open>
  The merge script is modelled in the version that loads its alias tables from
  \<^verbatim>\<open>mapping.json\<close> (\<^verbatim>\<open>loadMappings\<close>); line numbers refer to that file. The older \<^verbatim>\<open>merge.js\<close>,
  whose alias tables are written out in the script, is not modelled.

  The script works on property names and string values read from JSON files. A string is modelled as a \<^typ>\<open>string\<close> whose characters are the code units
  \<open>0 .. 255\<close> (Latin-1). On this range \<^verbatim>\<open>String.prototype.toLowerCase\<close> changes exactly
  \<open>A .. Z\<close>, \<open>U+00C0 .. U+00D6\<close> and \<open>U+00D8 .. U+00DE\<close>: each moves up by 32, which on
  these ranges is setting the bit of value 32 (the sixth argument of \<open>Char\<close>). The
  regular expression class \<^verbatim>\<open>\s\<close> holds exactly tab, line feed, vertical tab, form feed,
  carriage return, space and the no-break space \<open>U+00A0\<close>.
\<close>

definition toLowerChar :: "char \<Rightarrow> char" where
  "toLowerChar c =
     (case c of Char b0 b1 b2 b3 b4 b5 b6 b7 \<Rightarrow>
        (let n = (of_char c :: nat) in
         if (65 \<le> n \<and> n \<le> 90) \<or> (192 \<le> n \<and> n \<le> 214) \<or> (216 \<le> n \<and> n \<le> 222)
         then Char b0 b1 b2 b3 b4 True b6 b7 else c))"

definition toLowerCase :: "string \<Rightarrow> string" where
  "toLowerCase s = map toLowerChar s"

definition is_ws :: "char \<Rightarrow> bool" where
  "is_ws c = ((of_char c :: nat) \<in> {9, 10, 11, 12, 13, 32, 160})"

text \<open>\<^verbatim>\<open>s.replace(/\s+/g, r)\<close>: every maximal run of whitespace becomes one copy of \<open>r\<close>.\<close>

function replace_ws :: "string \<Rightarrow> string \<Rightarrow> string" where
  "replace_ws r [] = []"
| "replace_ws r (c # cs) =
     (if is_ws c then r @ replace_ws r (dropWhile is_ws cs) else c # replace_ws r cs)"
  by pat_completeness auto
termination
  by (relation "measure (\<lambda>(r, s). length s)")
     (auto simp: less_Suc_eq_le length_dropWhile_le)

text \<open>\<^verbatim>\<open>x.toLowerCase().replace(/\s+/g, '_')\<close>, the expression behind every normalized id.\<close>

definition normalize_id :: "string \<Rightarrow> string" where
  "normalize_id s = replace_ws ''_'' (toLowerCase s)"

section \<open>Objects used as dictionaries\<close>

text \<open>
  The script keeps its tables in plain objects (\<^verbatim>\<open>{}\<close>). An object is modelled as the list
  of its own properties in the order \<^verbatim>\<open>Object.entries\<close> yields them: the array indices
  (canonical decimal numerals below \<open>2^32 - 1\<close>) first, in ascending order, then every other
  key in the order of creation.

  A read \<^verbatim>\<open>obj[k]\<close> of a key that is no own property falls through to
  \<^verbatim>\<open>Object.prototype\<close>. For the twelve names below it returns an inherited member (a
  function, or the prototype itself for \<^verbatim>\<open>__proto__\<close>), which is truthy and is neither a
  string nor an array. The model keeps the three outcomes of a read apart.
\<close>

definition object_prototype_keys :: "string list" where
  "object_prototype_keys =
     [''constructor'', ''__defineGetter__'', ''__defineSetter__'', ''hasOwnProperty'',
      ''__lookupGetter__'', ''__lookupSetter__'', ''isPrototypeOf'', ''propertyIsEnumerable'',
      ''toString'', ''valueOf'', ''__proto__'', ''toLocaleString'']"

datatype 'v lookup = Own 'v | Inherited | Absent

definition js_get :: "(string \<times> 'v) list \<Rightarrow> string \<Rightarrow> 'v lookup" where
  "js_get obj k =
     (case map_of obj k of
        Some v \<Rightarrow> Own v
      | None \<Rightarrow> if k \<in> set object_prototype_keys then Inherited else Absent)"

definition is_digit :: "char \<Rightarrow> bool" where
  "is_digit c = (48 \<le> (of_char c :: nat) \<and> (of_char c :: nat) \<le> 57)"

definition dec_value :: "string \<Rightarrow> int" where
  "dec_value k = foldl (\<lambda>n c. 10 * n + (of_char c - 48)) 0 k"

definition is_array_index :: "string \<Rightarrow> bool" where
  "is_array_index k =
     (k \<noteq> [] \<and> list_all is_digit k \<and> (k = ''0'' \<or> hd k \<noteq> CHR ''0'') \<and>
      dec_value k < 4294967295)"

fun insert_index :: "string \<Rightarrow> 'v \<Rightarrow> (string \<times> 'v) list \<Rightarrow> (string \<times> 'v) list" where
  "insert_index k v [] = [(k, v)]"
| "insert_index k v ((k', v') # ps) =
     (if is_array_index k' \<and> dec_value k' < dec_value k
      then (k', v') # insert_index k v ps
      else (k, v) # (k', v') # ps)"

text \<open>
  \<^verbatim>\<open>obj[k] = v\<close> for an ordinary key: an existing property keeps its place and takes the new
  value; a new array index goes to its numeric place; any other new key goes last.
\<close>

definition js_set :: "(string \<times> 'v) list \<Rightarrow> string \<Rightarrow> 'v \<Rightarrow> (string \<times> 'v) list" where
  "js_set obj k v =
     (case map_of obj k of
        Some _ \<Rightarrow> map (\<lambda>(k', v'). if k' = k then (k', v) else (k', v')) obj
      | None \<Rightarrow> if is_array_index k then insert_index k v obj else obj @ [(k, v)])"

text \<open>
  Two ways in which a run leaves the model. \<open>TypeError\<close>: the script throws a
  \<^verbatim>\<open>TypeError\<close> at this point (the surrounding \<^verbatim>\<open>try\<close> block of the script catches it, logs
  it and writes no database). \<open>PrototypeMember\<close>: the script goes on with a member of
  \<^verbatim>\<open>Object.prototype\<close> where it expects a name, or assigns to \<^verbatim>\<open>__proto__\<close>; the model
  does not follow such a run any further.
\<close>

datatype error = TypeError | PrototypeMember

text \<open>
  \<^verbatim>\<open>obj[k] = v\<close> with a computed key: for \<^verbatim>\<open>__proto__\<close> no own property is created (the
  assignment reaches the prototype setter).
\<close>

definition js_put :: "(string \<times> 'v) list \<Rightarrow> string \<Rightarrow> 'v \<Rightarrow> error + (string \<times> 'v) list" where
  "js_put obj k v = (if k = ''__proto__'' then Inl PrototypeMember else Inr (js_set obj k v))"

text \<open>A \<^verbatim>\<open>forEach\<close> whose body may throw: the first failure ends the loop.\<close>

fun fold_result :: "('a \<Rightarrow> 's \<Rightarrow> error + 's) \<Rightarrow> 'a list \<Rightarrow> 's \<Rightarrow> error + 's" where
  "fold_result f [] s = Inr s"
| "fold_result f (x # xs) s =
     (case f x s of Inl e \<Rightarrow> Inl e | Inr s' \<Rightarrow> fold_result f xs s')"

section \<open>The key normalizer\<close>

text \<open>
  The alias tables returned by \<^verbatim>\<open>loadMappings\<close>: every value stored in them is a string
  (\<^verbatim>\<open>brand.value\<close>, \<^verbatim>\<open>brand.name\<close>, \<^verbatim>\<open>model.value\<close>, \<^verbatim>\<open>model.name\<close>).
\<close>

record alias_tables =
  manufacturerMapping :: "(string \<times> string) list"
  deviceMapping :: "(string \<times> string) list"
  brandDisplayNames :: "(string \<times> string) list"
  modelDisplayNames :: "(string \<times> (string \<times> string) list) list"

record normalized_key =
  normalized :: string
  canonical :: string

text \<open>
  The block both mapped branches of \<^verbatim>\<open>normalizeAndMapKey\<close> share (lines 148-155 and
  161-167): \<open>normalizedKey\<close> is the value found in the mapping table,
  \<^verbatim>\<open>displayNameTable ? (displayNameTable[normalizedKey] || normalizedKey) : normalizedKey\<close>
  the display name. \<open>None\<close> is the default \<^verbatim>\<open>displayNameTable = null\<close>.
\<close>

definition mapped_key :: "string \<Rightarrow> (string \<times> string) list option \<Rightarrow> error + normalized_key" where
  "mapped_key normalizedKey displayNameTable =
     (case displayNameTable of
        None \<Rightarrow> Inr \<lparr>normalized = normalize_id normalizedKey, canonical = normalizedKey\<rparr>
      | Some names \<Rightarrow>
          (case js_get names normalizedKey of
             Own displayName \<Rightarrow>
               Inr \<lparr>normalized = normalize_id normalizedKey,
                    canonical = (if displayName \<noteq> [] then displayName else normalizedKey)\<rparr>
           | Inherited \<Rightarrow> Inl PrototypeMember
           | Absent \<Rightarrow> Inr \<lparr>normalized = normalize_id normalizedKey, canonical = normalizedKey\<rparr>))"

text \<open>
  \<^verbatim>\<open>normalizeAndMapKey(key, mappingTable, displayNameTable)\<close>. An inherited member found
  under \<open>key\<close> or under its lowercase form is truthy, so the script takes the mapped branch
  and throws at \<^verbatim>\<open>normalizedKey.toLowerCase()\<close>. An empty string in the table is falsy:
  the lookup counts as a miss.
\<close>

definition unmapped_key :: "string \<Rightarrow> normalized_key" where
  "unmapped_key key = \<lparr>normalized = normalize_id key, canonical = key\<rparr>"

definition lowercase_lookup ::
  "string \<Rightarrow> (string \<times> string) list \<Rightarrow> (string \<times> string) list option \<Rightarrow> error + normalized_key" where
  "lowercase_lookup key mappingTable displayNameTable =
     (case js_get mappingTable (toLowerCase key) of
        Own normalizedKey \<Rightarrow>
          if normalizedKey \<noteq> [] then mapped_key normalizedKey displayNameTable
          else Inr (unmapped_key key)
      | Inherited \<Rightarrow> Inl TypeError
      | Absent \<Rightarrow> Inr (unmapped_key key))"

definition normalizeAndMapKey ::
  "string \<Rightarrow> (string \<times> string) list \<Rightarrow> (string \<times> string) list option \<Rightarrow> error + normalized_key" where
  "normalizeAndMapKey key mappingTable displayNameTable =
     (case js_get mappingTable key of
        Own normalizedKey \<Rightarrow>
          if normalizedKey \<noteq> [] then mapped_key normalizedKey displayNameTable
          else lowercase_lookup key mappingTable displayNameTable
      | Inherited \<Rightarrow> Inl TypeError
      | Absent \<Rightarrow> lowercase_lookup key mappingTable displayNameTable)"

text \<open>
  \<^verbatim>\<open>getModelDisplayName(brandKey, modelKey)\<close>, reading the global \<^verbatim>\<open>modelDisplayNames\<close>. Under
  a brand key that names a member of \<^verbatim>\<open>Object.prototype\<close> the script goes on to read a
  property of that member, and under such a model key it returns the member, which is no
  string; the model follows neither run and answers \<open>PrototypeMember\<close>.
\<close>

definition getModelDisplayName :: "alias_tables \<Rightarrow> string \<Rightarrow> string \<Rightarrow> error + string" where
  "getModelDisplayName t brandKey modelKey =
     (case js_get (modelDisplayNames t) brandKey of
        Own models \<Rightarrow>
          (case js_get models modelKey of
             Own displayName \<Rightarrow> Inr (if displayName \<noteq> [] then displayName else modelKey)
           | Inherited \<Rightarrow> Inl PrototypeMember
           | Absent \<Rightarrow> Inr modelKey)
      | Inherited \<Rightarrow> Inl PrototypeMember
      | Absent \<Rightarrow> Inr modelKey)"

section \<open>Device records\<close>

text \<open>
  The raw device objects of the two databases, typed after their JSON schema: every field
  may be missing, strings are strings, flags are booleans, the parameter lists are arrays of
  objects, numbers are integers, and a numeric field may hold a number or a string.
  \<^verbatim>\<open>pc\<close> is an array or a single object (of which only \<^verbatim>\<open>description\<close> is read).
\<close>

datatype raw_num = NumV int | StrV string

record raw_param =
  p_name :: "string option"
  p_description :: "string option"
  p_usage :: "string option"
  p_curve :: "string option"
  p_value :: "raw_num option"
  p_min :: "raw_num option"
  p_max :: "raw_num option"
  p_msb :: "raw_num option"
  p_lsb :: "raw_num option"
  p_type :: "string option"

datatype raw_pc = PcArray "raw_param list" | PcObject "string option"

record raw_device =
  raw_brand :: "string option"
  raw_device_name :: "string option"
  raw_midi_thru :: "bool option"
  raw_midi_in :: "string option"
  raw_midi_clock :: "bool option"
  raw_phantom_power :: "string option"
  raw_midi_channel :: "string option option"
  raw_instructions :: "string option"
  raw_cc :: "raw_param list option"
  raw_nrpn :: "raw_param list option"
  raw_pc :: "raw_pc option"

text \<open>
  \<open>raw_midi_channel\<close>: \<open>None\<close> when the device has no \<^verbatim>\<open>midi_channel\<close> object, otherwise
  \<open>Some\<close> of its optional \<^verbatim>\<open>instructions\<close> string.

  A numeric field of a standardized parameter: the number itself, or \<^verbatim>\<open>parseInt(s, 10)\<close> of
  the string it came as. No operation of the script inspects the parsed number, so it is
  kept as the string it is parsed from.
\<close>

datatype num_value = Number int | ParseInt string

record cc_param =
  cc_name :: string
  cc_description :: string
  cc_usage :: string
  cc_curve :: string
  cc_value :: "num_value option"
  cc_min :: num_value
  cc_max :: num_value
  cc_type :: string

record nrpn_param =
  nrpn_name :: string
  nrpn_description :: string
  nrpn_usage :: string
  nrpn_curve :: string
  nrpn_msb :: "num_value option"
  nrpn_lsb :: "num_value option"
  nrpn_min :: num_value
  nrpn_max :: num_value
  nrpn_type :: string

record midi_channel_obj =
  channel_instructions :: string

record device_record =
  brand :: string
  device_name :: string
  midi_thru :: bool
  midi_in :: string
  midi_clock :: bool
  phantom_power :: string
  midi_channel :: midi_channel_obj
  instructions :: string
  cc :: "cc_param list"
  nrpn :: "nrpn_param list"
  pc :: "cc_param list"

text \<open>\<^verbatim>\<open>x || d\<close> on an optional string and on an optional flag.\<close>

definition str_or :: "string option \<Rightarrow> string \<Rightarrow> string" where
  "str_or x d = (case x of Some s \<Rightarrow> if s \<noteq> [] then s else d | None \<Rightarrow> d)"

definition bool_or :: "bool option \<Rightarrow> bool \<Rightarrow> bool" where
  "bool_or x d = (case x of Some b \<Rightarrow> if b then b else d | None \<Rightarrow> d)"

text \<open>
  \<^verbatim>\<open>typeof x === 'string' ? parseInt(x, 10) : x\<close> and
  \<^verbatim>\<open>typeof x === 'string' ? parseInt(x, 10) : (x !== undefined ? x : d)\<close>.
\<close>

definition coerce :: "raw_num option \<Rightarrow> num_value option" where
  "coerce x =
     (case x of
        Some (StrV s) \<Rightarrow> Some (ParseInt s)
      | Some (NumV n) \<Rightarrow> Some (Number n)
      | None \<Rightarrow> None)"

definition coerce_default :: "raw_num option \<Rightarrow> int \<Rightarrow> num_value" where
  "coerce_default x d =
     (case x of
        Some (StrV s) \<Rightarrow> ParseInt s
      | Some (NumV n) \<Rightarrow> Number n
      | None \<Rightarrow> Number d)"

definition standard_cc :: "raw_param \<Rightarrow> cc_param" where
  "standard_cc p =
     \<lparr>cc_name = str_or (p_name p) [],
      cc_description = str_or (p_description p) [],
      cc_usage = str_or (p_usage p) [],
      cc_curve = str_or (p_curve p) ''0-based'',
      cc_value = coerce (p_value p),
      cc_min = coerce_default (p_min p) 0,
      cc_max = coerce_default (p_max p) 127,
      cc_type = str_or (p_type p) ''Parameter''\<rparr>"

definition standard_nrpn :: "raw_param \<Rightarrow> nrpn_param" where
  "standard_nrpn p =
     \<lparr>nrpn_name = str_or (p_name p) [],
      nrpn_description = str_or (p_description p) [],
      nrpn_usage = str_or (p_usage p) [],
      nrpn_curve = str_or (p_curve p) ''0-based'',
      nrpn_msb = coerce (p_msb p),
      nrpn_lsb = coerce (p_lsb p),
      nrpn_min = coerce_default (p_min p) 0,
      nrpn_max = coerce_default (p_max p) 16383,
      nrpn_type = str_or (p_type p) ''Parameter''\<rparr>"

text \<open>
  \<^verbatim>\<open>createStandardDevice(deviceData, brandName, deviceName)\<close>. Its last property is the
  literal \<^verbatim>\<open>pc: []\<close>: the function never reads \<^verbatim>\<open>deviceData.pc\<close>.
\<close>

definition createStandardDevice :: "raw_device \<Rightarrow> string \<Rightarrow> string \<Rightarrow> device_record" where
  "createStandardDevice deviceData brandName deviceName =
     \<lparr>brand = brandName,
      device_name = deviceName,
      midi_thru = bool_or (raw_midi_thru deviceData) False,
      midi_in = str_or (raw_midi_in deviceData) [],
      midi_clock = bool_or (raw_midi_clock deviceData) False,
      phantom_power = str_or (raw_phantom_power deviceData) ''None'',
      midi_channel =
        \<lparr>channel_instructions =
           str_or (case raw_midi_channel deviceData of None \<Rightarrow> None | Some i \<Rightarrow> i) []\<rparr>,
      instructions = str_or (raw_instructions deviceData) [],
      cc = map standard_cc (case raw_cc deviceData of None \<Rightarrow> [] | Some ps \<Rightarrow> ps),
      nrpn = map standard_nrpn (case raw_nrpn deviceData of None \<Rightarrow> [] | Some ps \<Rightarrow> ps),
      pc = []\<rparr>"

text \<open>
  The step of the source loop that comes before \<^verbatim>\<open>createStandardDevice\<close> (lines 358-371): a
  \<^verbatim>\<open>pc\<close> that is an object and no array is replaced, in the raw device, by a one-element
  array.
\<close>

definition program_change :: "string option \<Rightarrow> raw_param" where
  "program_change description =
     \<lparr>p_name = Some ''Program Change'',
      p_description = Some (str_or description []),
      p_usage = Some [],
      p_curve = Some ''0-based'',
      p_value = Some (NumV 0),
      p_min = Some (NumV 0),
      p_max = Some (NumV 127),
      p_msb = None,
      p_lsb = None,
      p_type = Some ''Parameter''\<rparr>"

definition normalize_pc :: "raw_device \<Rightarrow> raw_device" where
  "normalize_pc deviceData =
     (case raw_pc deviceData of
        Some (PcObject description) \<Rightarrow>
          deviceData\<lparr>raw_pc := Some (PcArray [program_change description])\<rparr>
      | _ \<Rightarrow> deviceData)"

section \<open>The device merger\<close>

text \<open>
  \<^verbatim>\<open>mergeDevices(deviceA, deviceB)\<close> is called on standardized records only, which all carry
  the same eleven properties; so \<^verbatim>\<open>{ ...deviceB, ...deviceA }\<close> is a copy of \<open>deviceA\<close>.
  \<open>merge_array\<close> is the body of the loop over \<^verbatim>\<open>['cc', 'nrpn', 'pc']\<close> for one field.

  The copy is shallow: \<^verbatim>\<open>merged.midi_channel\<close> is the object of \<open>deviceA\<close>, and the
  assignment to its \<^verbatim>\<open>instructions\<close> also changes \<open>deviceA\<close>, which the resolution engine
  took from the first variant of the model. The value written is the longer of the two
  strings, so writing it again when the same bucket is processed once more changes
  nothing; the model therefore passes records by value.

  \<open>ensure_required\<close> is the block of defaults at the end of the function (lines 217-222).
  Its line \<^verbatim>\<open>merged.midi_channel = merged.midi_channel || { instructions: "" }\<close> finds an
  object, which is truthy, and changes nothing; it has no counterpart in the definition.
\<close>

definition merge_array :: "'a list \<Rightarrow> 'a list \<Rightarrow> 'a list" where
  "merge_array a b =
     (if length a > 0 \<and> length b > 0 then (if length a \<ge> length b then a else b)
      else if length a > 0 then a
      else if length b > 0 then b
      else [])"

definition merge_instructions ::
  "device_record \<Rightarrow> device_record \<Rightarrow> device_record \<Rightarrow> device_record" where
  "merge_instructions deviceA deviceB merged =
     (if channel_instructions (midi_channel deviceA) \<noteq> [] \<and>
         channel_instructions (midi_channel deviceB) \<noteq> []
      then merged\<lparr>midi_channel := (midi_channel merged)\<lparr>channel_instructions :=
             (if length (channel_instructions (midi_channel deviceA))
                   \<ge> length (channel_instructions (midi_channel deviceB))
              then channel_instructions (midi_channel deviceA)
              else channel_instructions (midi_channel deviceB))\<rparr>\<rparr>
      else merged)"

definition ensure_required :: "device_record \<Rightarrow> device_record" where
  "ensure_required merged =
     merged\<lparr>midi_thru := (midi_thru merged \<or> False),
            midi_in := (if midi_in merged \<noteq> [] then midi_in merged else []),
            midi_clock := (midi_clock merged \<or> False),
            phantom_power :=
              (if phantom_power merged \<noteq> [] then phantom_power merged else ''None''),
            instructions := (if instructions merged \<noteq> [] then instructions merged else [])\<rparr>"

definition mergeDevices :: "device_record \<Rightarrow> device_record \<Rightarrow> device_record" where
  "mergeDevices deviceA deviceB =
     ensure_required
       (merge_instructions deviceA deviceB
          (deviceA\<lparr>cc := merge_array (cc deviceA) (cc deviceB),
                   nrpn := merge_array (nrpn deviceA) (nrpn deviceB),
                   pc := merge_array (pc deviceA) (pc deviceB)\<rparr>))"

section \<open>The resolution engine\<close>

text \<open>
  A database is the object \<^verbatim>\<open>JSON.parse\<close> returns, given as its entries in enumeration order.
  A top-level value is the object of a brand (device key to raw device) or a string (the
  values of \<^verbatim>\<open>version\<close> and \<^verbatim>\<open>generatedAt\<close>).

  \<^verbatim>\<open>Object.entries\<close> of a string yields one entry per character, keyed by its index; the
  one-character string that then stands for the device has none of the properties the
  script reads, so it behaves as the empty device.
\<close>

datatype db_value = Scalar string | Devices "(string \<times> raw_device) list"

type_synonym database = "(string \<times> db_value) list"

definition empty_device :: raw_device where
  "empty_device =
     \<lparr>raw_brand = None, raw_device_name = None, raw_midi_thru = None, raw_midi_in = None,
      raw_midi_clock = None, raw_phantom_power = None, raw_midi_channel = None,
      raw_instructions = None, raw_cc = None, raw_nrpn = None, raw_pc = None\<rparr>"

fun dec_string :: "nat \<Rightarrow> string" where
  "dec_string n =
     (if n < 10 then [''0123456789'' ! n]
      else dec_string (n div 10) @ [''0123456789'' ! (n mod 10)])"

definition entries_of :: "db_value \<Rightarrow> (string \<times> raw_device) list" where
  "entries_of brandData =
     (case brandData of
        Devices ds \<Rightarrow> ds
      | Scalar s \<Rightarrow> map (\<lambda>i. (dec_string i, empty_device)) [0..<length s])"

record variant =
  v_brandKey :: string
  v_deviceKey :: string
  canonicalBrandName :: string
  canonicalDeviceName :: string
  data :: device_record

record manufacturer =
  variants :: "string list"
  canonicalName :: string
  devices :: "(string \<times> string) list"

record engine_state =
  manufacturers :: "(string \<times> manufacturer) list"
  normalizedDeviceMap :: "(string \<times> variant list) list"

definition reservedKeys :: "string list" where
  "reservedKeys = [''version'', ''generatedAt'']"

text \<open>
  The head of the body of the loop over the target database (lines 295-303): a new
  normalized brand is entered with the canonical name of this first key; a known one only
  gets the key appended to its variants. An inherited member under the normalized brand is
  truthy and has no \<^verbatim>\<open>variants\<close>, so \<^verbatim>\<open>.variants.push\<close> throws.
\<close>

definition enter_brand_target ::
  "string \<Rightarrow> normalized_key \<Rightarrow> (string \<times> manufacturer) list \<Rightarrow> error + (string \<times> manufacturer) list" where
  "enter_brand_target brandKey k ms =
     (case js_get ms (normalized k) of
        Absent \<Rightarrow>
          Inr (js_set ms (normalized k)
                 \<lparr>variants = [brandKey], canonicalName = canonical k, devices = []\<rparr>)
      | Own m \<Rightarrow> Inr (js_set ms (normalized k) (m\<lparr>variants := variants m @ [brandKey]\<rparr>))
      | Inherited \<Rightarrow> Inl TypeError)"

text \<open>The same for the source database (lines 336-344): the key is appended only if new.\<close>

definition enter_brand_source ::
  "string \<Rightarrow> normalized_key \<Rightarrow> (string \<times> manufacturer) list \<Rightarrow> error + (string \<times> manufacturer) list" where
  "enter_brand_source brandKey k ms =
     (case js_get ms (normalized k) of
        Absent \<Rightarrow>
          Inr (js_set ms (normalized k)
                 \<lparr>variants = [brandKey], canonicalName = canonical k, devices = []\<rparr>)
      | Own m \<Rightarrow>
          if brandKey \<notin> set (variants m)
          then Inr (js_set ms (normalized k) (m\<lparr>variants := variants m @ [brandKey]\<rparr>))
          else Inr ms
      | Inherited \<Rightarrow> Inl TypeError)"

text \<open>
  Lines 307-311 and 348-352, the same in both loops: the normalized device, its display
  name and the id of its bucket.
\<close>

definition identify_device ::
  "alias_tables \<Rightarrow> string \<Rightarrow> string \<Rightarrow> error + (string \<times> string \<times> string)" where
  "identify_device t normalizedBrand deviceKey =
     (case normalizeAndMapKey deviceKey (deviceMapping t) None of
        Inl e \<Rightarrow> Inl e
      | Inr k \<Rightarrow>
          (case getModelDisplayName t normalizedBrand (normalized k) of
             Inl e \<Rightarrow> Inl e
           | Inr displayDeviceName \<Rightarrow>
               Inr (normalized k, displayDeviceName, normalizedBrand @ ''_'' @ normalized k)))"

text \<open>
  \<^verbatim>\<open>if (!normalizedDeviceMap[deviceId]) normalizedDeviceMap[deviceId] = [];\<close> followed by
  \<^verbatim>\<open>normalizedDeviceMap[deviceId].push(...)\<close>.
\<close>

definition push_variant ::
  "string \<Rightarrow> variant \<Rightarrow> (string \<times> variant list) list \<Rightarrow> error + (string \<times> variant list) list" where
  "push_variant deviceId v ndm =
     (case js_get ndm deviceId of
        Absent \<Rightarrow> Inr (js_set ndm deviceId [v])
      | Own vs \<Rightarrow> Inr (js_set ndm deviceId (vs @ [v]))
      | Inherited \<Rightarrow> Inl TypeError)"

text \<open>\<^verbatim>\<open>manufacturers[normalizedBrand].devices[normalizedDevice] = deviceId\<close>.\<close>

definition register_device ::
  "string \<Rightarrow> string \<Rightarrow> string \<Rightarrow> (string \<times> manufacturer) list \<Rightarrow> error + (string \<times> manufacturer) list" where
  "register_device normalizedBrand normalizedDevice deviceId ms =
     (case js_get ms normalizedBrand of
        Own m \<Rightarrow>
          (case js_put (devices m) normalizedDevice deviceId of
             Inl e \<Rightarrow> Inl e
           | Inr ds \<Rightarrow> Inr (js_set ms normalizedBrand (m\<lparr>devices := ds\<rparr>)))
      | _ \<Rightarrow> Inl TypeError)"

definition store_variant ::
  "string \<Rightarrow> string \<Rightarrow> string \<Rightarrow> variant \<Rightarrow> engine_state \<Rightarrow> error + engine_state" where
  "store_variant normalizedBrand normalizedDevice deviceId v st =
     (case push_variant deviceId v (normalizedDeviceMap st) of
        Inl e \<Rightarrow> Inl e
      | Inr ndm \<Rightarrow>
          (case register_device normalizedBrand normalizedDevice deviceId (manufacturers st) of
             Inl e \<Rightarrow> Inl e
           | Inr ms \<Rightarrow> Inr \<lparr>manufacturers = ms, normalizedDeviceMap = ndm\<rparr>))"

text \<open>The body of the inner loop over the devices of a target brand (lines 305-327).\<close>

definition target_device ::
  "alias_tables \<Rightarrow> string \<Rightarrow> normalized_key \<Rightarrow> string \<times> raw_device \<Rightarrow> engine_state \<Rightarrow> error + engine_state" where
  "target_device t brandKey k entry st =
     (case entry of (deviceKey, deviceData) \<Rightarrow>
        (case identify_device t (normalized k) deviceKey of
           Inl e \<Rightarrow> Inl e
         | Inr (normalizedDevice, displayDeviceName, deviceId) \<Rightarrow>
             store_variant (normalized k) normalizedDevice deviceId
               \<lparr>v_brandKey = brandKey, v_deviceKey = deviceKey,
                canonicalBrandName = canonical k,
                canonicalDeviceName = displayDeviceName,
                data = createStandardDevice deviceData
                         (str_or (raw_brand deviceData) (canonical k))
                         (str_or (raw_device_name deviceData) displayDeviceName)\<rparr>
               st))"

text \<open>The body of the inner loop over the devices of a source brand (lines 346-382).\<close>

definition source_device ::
  "alias_tables \<Rightarrow> string \<Rightarrow> normalized_key \<Rightarrow> string \<times> raw_device \<Rightarrow> engine_state \<Rightarrow> error + engine_state" where
  "source_device t brandKey k entry st =
     (case entry of (deviceKey, deviceData) \<Rightarrow>
        (case identify_device t (normalized k) deviceKey of
           Inl e \<Rightarrow> Inl e
         | Inr (normalizedDevice, displayDeviceName, deviceId) \<Rightarrow>
             store_variant (normalized k) normalizedDevice deviceId
               \<lparr>v_brandKey = brandKey, v_deviceKey = deviceKey,
                canonicalBrandName = canonical k,
                canonicalDeviceName = displayDeviceName,
                data = createStandardDevice (normalize_pc deviceData)
                         (canonical k) displayDeviceName\<rparr>
               st))"

text \<open>
  The body of the loop over the target database (lines 286-328). Its first statement skips
  the reserved keys.
\<close>

definition target_brand ::
  "alias_tables \<Rightarrow> string \<times> db_value \<Rightarrow> engine_state \<Rightarrow> error + engine_state" where
  "target_brand t entry st =
     (case entry of (brandKey, brandData) \<Rightarrow>
        if brandKey \<in> set reservedKeys then Inr st
        else
          (case normalizeAndMapKey brandKey (manufacturerMapping t) (Some (brandDisplayNames t)) of
             Inl e \<Rightarrow> Inl e
           | Inr k \<Rightarrow>
               (case enter_brand_target brandKey k (manufacturers st) of
                  Inl e \<Rightarrow> Inl e
                | Inr ms \<Rightarrow>
                    fold_result (target_device t brandKey k) (entries_of brandData)
                      (st\<lparr>manufacturers := ms\<rparr>))))"

text \<open>
  The body of the loop over the source database (lines 331-383). It has no test of the
  reserved keys: every top-level key of the source is taken as a brand.
\<close>

definition source_brand ::
  "alias_tables \<Rightarrow> string \<times> db_value \<Rightarrow> engine_state \<Rightarrow> error + engine_state" where
  "source_brand t entry st =
     (case entry of (brandKey, brandData) \<Rightarrow>
        (case normalizeAndMapKey brandKey (manufacturerMapping t) (Some (brandDisplayNames t)) of
           Inl e \<Rightarrow> Inl e
         | Inr k \<Rightarrow>
             (case enter_brand_source brandKey k (manufacturers st) of
                Inl e \<Rightarrow> Inl e
              | Inr ms \<Rightarrow>
                  fold_result (source_device t brandKey k) (entries_of brandData)
                    (st\<lparr>manufacturers := ms\<rparr>))))"

subsection \<open>Final assembly\<close>

text \<open>
  The output object: the metadata copied from the target database, and one object per
  brand display name, holding one device record per model display name.
\<close>

datatype final_value = Metadata db_value | Brand "(string \<times> device_record) list"

type_synonym final_database = "(string \<times> final_value) list"

text \<open>Lines 271-277 and 386: the reserved keys the target database defines.\<close>

definition metadata_of :: "database \<Rightarrow> final_database" where
  "metadata_of targetDb =
     concat (map (\<lambda>key. case map_of targetDb key of
                             Some v \<Rightarrow> [(key, Metadata v)]
                           | None \<Rightarrow> [])
                 reservedKeys)"

text \<open>\<^verbatim>\<open>variant.canonicalDeviceName || variant.deviceKey\<close>.\<close>

definition model_name :: "variant \<Rightarrow> string" where
  "model_name v =
     (if canonicalDeviceName v \<noteq> [] then canonicalDeviceName v else v_deviceKey v)"

text \<open>
  The body of the loop that fills \<^verbatim>\<open>variantsByName\<close> (lines 401-407). An inherited member
  under the model name is truthy and has no \<^verbatim>\<open>push\<close>: the script throws.
\<close>

definition add_variant ::
  "variant \<Rightarrow> (string \<times> variant list) list \<Rightarrow> error + (string \<times> variant list) list" where
  "add_variant v variantsByName =
     (case js_get variantsByName (model_name v) of
        Absent \<Rightarrow> Inr (js_set variantsByName (model_name v) [v])
      | Own vs \<Rightarrow> Inr (js_set variantsByName (model_name v) (vs @ [v]))
      | Inherited \<Rightarrow> Inl TypeError)"

text \<open>
  Lines 412-416: \<^verbatim>\<open>Array.prototype.sort\<close> is stable, and the comparator
  \<^verbatim>\<open>bCount - aCount\<close> orders by descending parameter count.
\<close>

definition param_count :: "variant \<Rightarrow> nat" where
  "param_count v = length (cc (data v)) + length (nrpn (data v)) + length (pc (data v))"

definition sort_variants :: "variant list \<Rightarrow> variant list" where
  "sort_variants vs = sort_key (\<lambda>v. - int (param_count v)) vs"

text \<open>
  Lines 418-430: the first variant after sorting is the seed, the others are merged into it
  from left to right, and the result is stamped with the brand and model names. An empty
  list has no first variant (\<^verbatim>\<open>primaryVariant.data\<close> throws).
\<close>

definition merge_model :: "string \<Rightarrow> string \<Rightarrow> variant list \<Rightarrow> error + device_record" where
  "merge_model primaryBrandKey modelName vs =
     (case sort_variants vs of
        [] \<Rightarrow> Inl TypeError
      | primaryVariant # rest \<Rightarrow>
          Inr ((foldl mergeDevices (data primaryVariant) (map data rest))
                 \<lparr>brand := primaryBrandKey, device_name := modelName\<rparr>))"

text \<open>The body of the loop over \<^verbatim>\<open>variantsByName\<close> (lines 410-434).\<close>

definition process_model ::
  "string \<Rightarrow> string \<times> variant list \<Rightarrow> (string \<times> device_record) list \<Rightarrow> error + (string \<times> device_record) list" where
  "process_model primaryBrandKey entry brandObj =
     (case entry of (modelName, vs) \<Rightarrow>
        (case merge_model primaryBrandKey modelName vs of
           Inl e \<Rightarrow> Inl e
         | Inr mergedData \<Rightarrow> js_put brandObj modelName mergedData))"

text \<open>
  The body of the loop over the devices of a brand (lines 395-435). A device id without a
  bucket has no \<^verbatim>\<open>forEach\<close>.
\<close>

definition process_device ::
  "(string \<times> variant list) list \<Rightarrow> string \<Rightarrow> string \<times> string \<Rightarrow> (string \<times> device_record) list \<Rightarrow>
     error + (string \<times> device_record) list" where
  "process_device ndm primaryBrandKey entry brandObj =
     (case entry of (normalizedDevice, deviceId) \<Rightarrow>
        (case js_get ndm deviceId of
           Own deviceVariants \<Rightarrow>
             (case fold_result add_variant deviceVariants [] of
                Inl e \<Rightarrow> Inl e
              | Inr variantsByName \<Rightarrow>
                  fold_result (process_model primaryBrandKey) variantsByName brandObj)
         | _ \<Rightarrow> Inl TypeError))"

text \<open>
  The body of the loop over \<^verbatim>\<open>manufacturers\<close> (lines 388-436). The script first assigns
  \<^verbatim>\<open>finalDb[primaryBrandKey] = {}\<close> and then fills that object; no other property of
  \<^verbatim>\<open>finalDb\<close> is touched in between, so the model builds the object first and assigns it
  once.
\<close>

definition assemble_brand ::
  "(string \<times> variant list) list \<Rightarrow> string \<times> manufacturer \<Rightarrow> final_database \<Rightarrow> error + final_database" where
  "assemble_brand ndm entry finalDb =
     (case entry of (normalizedBrand, m) \<Rightarrow>
        (case js_put finalDb (canonicalName m) (Brand []) of
           Inl e \<Rightarrow> Inl e
         | Inr _ \<Rightarrow>
             (case fold_result (process_device ndm (canonicalName m)) (devices m) [] of
                Inl e \<Rightarrow> Inl e
              | Inr brandObj \<Rightarrow> Inr (js_set finalDb (canonicalName m) (Brand brandObj)))))"

text \<open>
  \<^verbatim>\<open>resolve\<close>: the statements of the script from the metadata copy to the end of the final
  assembly (lines 271-436), with the two parsed databases and the alias tables as inputs.
\<close>

definition initial_state :: engine_state where
  "initial_state = \<lparr>manufacturers = [], normalizedDeviceMap = []\<rparr>"

definition collect :: "alias_tables \<Rightarrow> database \<Rightarrow> database \<Rightarrow> error + engine_state" where
  "collect t targetDb sourceDb =
     (case fold_result (target_brand t) targetDb initial_state of
        Inl e \<Rightarrow> Inl e
      | Inr st \<Rightarrow> fold_result (source_brand t) sourceDb st)"

definition assemble :: "engine_state \<Rightarrow> final_database \<Rightarrow> error + final_database" where
  "assemble st finalDb =
     fold_result (assemble_brand (normalizedDeviceMap st)) (manufacturers st) finalDb"

definition resolve :: "alias_tables \<Rightarrow> database \<Rightarrow> database \<Rightarrow> error + final_database" where
  "resolve t targetDb sourceDb =
     (case collect t targetDb sourceDb of
        Inl e \<Rightarrow> Inl e
      | Inr st \<Rightarrow> assemble st (metadata_of targetDb))"

section \<open>The alias configuration\<close>

text \<open>
  \<^verbatim>\<open>mapping.json\<close>, typed after its schema
  \<^verbatim>\<open>{ brands: [ { name, value, models?: [ { name, value } ] } ] }\<close>; every field may be missing.
  Reading and parsing the file either yields such a value or throws:
  \<^verbatim>\<open>fs.readFileSync\<close> when the file is missing, \<^verbatim>\<open>JSON.parse\<close> when it is no JSON.
\<close>

record model_config =
  m_name :: "string option"
  m_value :: "string option"

record brand_config =
  b_name :: "string option"
  b_value :: "string option"
  b_models :: "model_config list option"

record mapping_config =
  brands :: "brand_config list option"

datatype 'a read_result = ReadFailed | ParseFailed | Parsed 'a

subsection \<open>Spelling variants\<close>

text \<open>\<^verbatim>\<open>s.replace(/a/g, 'b')\<close> for single characters \<open>a\<close>, \<open>b\<close>, and \<^verbatim>\<open>s.replace(/\./g, '')\<close>.\<close>

definition replace_char :: "char \<Rightarrow> char \<Rightarrow> string \<Rightarrow> string" where
  "replace_char a b s = map (\<lambda>c. if c = a then b else c) s"

definition remove_char :: "char \<Rightarrow> string \<Rightarrow> string" where
  "remove_char a s = filter (\<lambda>c. c \<noteq> a) s"

text \<open>
  The four rewrites \<^verbatim>\<open>replace(/mk(\d+)/i, 'mark$1')\<close>, \<^verbatim>\<open>replace(/mark(\d+)/i, 'mk$1')\<close>,
  \<^verbatim>\<open>replace(/mkii/i, 'mk2')\<close> and \<^verbatim>\<open>replace(/mk2/i, 'mkii')\<close> replace the leftmost match only.
  \<open>starts_ci p s\<close>: \<open>s\<close> starts with the lowercase pattern \<open>p\<close>, ignoring case.
  \<open>replace_first p digit r s\<close>: the leftmost occurrence of \<open>p\<close> (followed by a digit when
  \<open>digit\<close> is set; the digits stay, as \<^verbatim>\<open>$1\<close>) is replaced by \<open>r\<close>.
\<close>

fun starts_ci :: "string \<Rightarrow> string \<Rightarrow> bool" where
  "starts_ci [] s = True"
| "starts_ci (p # ps) [] = False"
| "starts_ci (p # ps) (c # cs) = (toLowerChar c = p \<and> starts_ci ps cs)"

fun replace_first :: "string \<Rightarrow> bool \<Rightarrow> string \<Rightarrow> string \<Rightarrow> string" where
  "replace_first p digit r [] = []"
| "replace_first p digit r (c # cs) =
     (if starts_ci p (c # cs) \<and>
         (\<not> digit \<or> (case drop (length p) (c # cs) of [] \<Rightarrow> False | d # _ \<Rightarrow> is_digit d))
      then r @ drop (length p) (c # cs)
      else c # replace_first p digit r cs)"

text \<open>The keys lines 41-65 register for a brand, and lines 76-93 for a model, in order.\<close>

definition brand_keys :: "string \<Rightarrow> string \<Rightarrow> string list" where
  "brand_keys brandName brandValue =
     [brandValue,
      toLowerCase brandName,
      replace_ws [] (toLowerCase brandName),
      replace_ws ''_'' (toLowerCase brandName),
      replace_ws ''-'' (toLowerCase brandName),
      brandValue @ ''_music'', brandValue @ ''music'',
      brandValue @ ''_audio'', brandValue @ ''audio'',
      brandValue @ ''_electronics'', brandValue @ ''electronics'',
      brandValue @ ''_pedals'', brandValue @ ''pedals'',
      brandValue @ ''_effects'', brandValue @ ''effects'',
      brandValue @ ''_engineering'', brandValue @ ''engineering'',
      replace_char CHR ''-'' CHR ''_'' brandValue,
      replace_char CHR ''_'' CHR ''-'' brandValue]"

definition model_keys :: "string \<Rightarrow> string \<Rightarrow> string list" where
  "model_keys modelName modelValue =
     [modelValue,
      toLowerCase modelName,
      replace_ws [] (toLowerCase modelName),
      replace_ws ''_'' (toLowerCase modelName),
      replace_ws ''-'' (toLowerCase modelName),
      replace_char CHR ''-'' CHR ''_'' modelValue,
      replace_char CHR ''_'' CHR ''-'' modelValue,
      remove_char CHR ''.'' modelValue,
      replace_first ''mk'' True ''mark'' modelValue,
      replace_first ''mark'' True ''mk'' modelValue,
      replace_first ''mkii'' False ''mk2'' modelValue,
      replace_first ''mk2'' False ''mkii'' modelValue]"

subsection \<open>\<^verbatim>\<open>loadMappings\<close>\<close>

text \<open>
  \<^verbatim>\<open>table[k] = v\<close> for a string \<open>v\<close>: under the key \<^verbatim>\<open>__proto__\<close> the assignment of a string
  changes nothing.
\<close>

definition js_set_string :: "(string \<times> string) list \<Rightarrow> string \<Rightarrow> string \<Rightarrow> (string \<times> string) list" where
  "js_set_string table k v = (if k = ''__proto__'' then table else js_set table k v)"

definition register_keys :: "string list \<Rightarrow> string \<Rightarrow> (string \<times> string) list \<Rightarrow> (string \<times> string) list" where
  "register_keys ks v table = foldl (\<lambda>tbl k. js_set_string tbl k v) table ks"

text \<open>
  The body of the loop over \<^verbatim>\<open>brand.models\<close> (lines 69-94): a model without a (non-empty)
  value is skipped.
\<close>

definition add_model :: "model_config \<Rightarrow> (string \<times> string) list \<Rightarrow> (string \<times> string) list" where
  "add_model model deviceTable =
     (case m_value model of
        None \<Rightarrow> deviceTable
      | Some modelValue \<Rightarrow>
          if modelValue = [] then deviceTable
          else register_keys (model_keys (str_or (m_name model) modelValue) modelValue)
                 modelValue deviceTable)"

text \<open>
  The body of the first loop over \<^verbatim>\<open>mapping.brands\<close> (lines 36-96). A brand without a name
  throws at \<^verbatim>\<open>brandName.toLowerCase()\<close>, a brand without a value at
  \<^verbatim>\<open>brandValue.replace\<close>; what was registered before is lost with the exception.
\<close>

definition add_brand ::
  "brand_config \<Rightarrow> (string \<times> string) list \<times> (string \<times> string) list \<Rightarrow>
     error + (string \<times> string) list \<times> (string \<times> string) list" where
  "add_brand brandCfg tables =
     (case tables of (manufacturerTable, deviceTable) \<Rightarrow>
        (case (b_name brandCfg, b_value brandCfg) of
           (Some brandName, Some brandValue) \<Rightarrow>
             Inr (register_keys (brand_keys brandName brandValue) brandValue manufacturerTable,
                  (case b_models brandCfg of
                     None \<Rightarrow> deviceTable
                   | Some models \<Rightarrow> foldl (\<lambda>tbl model. add_model model tbl) deviceTable models))
         | _ \<Rightarrow> Inl TypeError))"

text \<open>
  The second loop (lines 100-102): \<^verbatim>\<open>brandDisplayNames[brand.value] = brand.name\<close>. It runs
  after the first loop went through every brand, so each brand has a name and a value and
  the last case of the definition is never reached from \<open>build_tables\<close>; the same holds for
  the brand without a value in \<open>add_model_names\<close> below.
\<close>

definition add_brand_name :: "brand_config \<Rightarrow> (string \<times> string) list \<Rightarrow> error + (string \<times> string) list" where
  "add_brand_name brandCfg names =
     (case (b_name brandCfg, b_value brandCfg) of
        (Some brandName, Some brandValue) \<Rightarrow> Inr (js_set_string names brandValue brandName)
      | _ \<Rightarrow> Inl TypeError)"

text \<open>
  The third loop (lines 106-117). Under a brand value that names a member of
  \<^verbatim>\<open>Object.prototype\<close> the script finds that member and stores the model name in it.
\<close>

definition add_model_name ::
  "string \<Rightarrow> model_config \<Rightarrow> (string \<times> (string \<times> string) list) list \<Rightarrow>
     error + (string \<times> (string \<times> string) list) list" where
  "add_model_name brandValue model names =
     (case (m_value model, m_name model) of
        (Some modelValue, Some modelName) \<Rightarrow>
          if modelValue \<noteq> [] \<and> modelName \<noteq> [] then
            (case js_get names brandValue of
               Absent \<Rightarrow> Inr (js_set names brandValue (js_set_string [] modelValue modelName))
             | Own models \<Rightarrow>
                 Inr (js_set names brandValue (js_set_string models modelValue modelName))
             | Inherited \<Rightarrow> Inl PrototypeMember)
          else Inr names
      | _ \<Rightarrow> Inr names)"

definition add_model_names ::
  "brand_config \<Rightarrow> (string \<times> (string \<times> string) list) list \<Rightarrow>
     error + (string \<times> (string \<times> string) list) list" where
  "add_model_names brandCfg names =
     (case (b_models brandCfg, b_value brandCfg) of
        (Some models, Some brandValue) \<Rightarrow> fold_result (add_model_name brandValue) models names
      | (Some models, None) \<Rightarrow> Inl TypeError
      | (None, _) \<Rightarrow> Inr names)"

text \<open>The statements of the \<^verbatim>\<open>try\<close> block after the file is parsed (lines 33-120).\<close>

definition build_tables :: "mapping_config \<Rightarrow> error + alias_tables" where
  "build_tables mapping =
     (case brands mapping of
        None \<Rightarrow> Inl TypeError
      | Some bs \<Rightarrow>
          (case fold_result add_brand bs ([], []) of
             Inl e \<Rightarrow> Inl e
           | Inr (manufacturerTable, deviceTable) \<Rightarrow>
               (case fold_result add_brand_name bs [] of
                  Inl e \<Rightarrow> Inl e
                | Inr brandNames \<Rightarrow>
                    (case fold_result add_model_names bs [] of
                       Inl e \<Rightarrow> Inl e
                     | Inr modelNames \<Rightarrow>
                         Inr \<lparr>manufacturerMapping = manufacturerTable,
                              deviceMapping = deviceTable,
                              brandDisplayNames = brandNames,
                              modelDisplayNames = modelNames\<rparr>))))"

text \<open>
  \<^verbatim>\<open>loadMappings\<close>: the \<^verbatim>\<open>catch\<close> block turns every exception of the \<^verbatim>\<open>try\<close> block into the
  four empty tables. A run that stored into a member of \<^verbatim>\<open>Object.prototype\<close> has thrown
  nothing; the model does not follow it.
\<close>

definition no_tables :: alias_tables where
  "no_tables =
     \<lparr>manufacturerMapping = [], deviceMapping = [], brandDisplayNames = [],
      modelDisplayNames = []\<rparr>"

definition loadMappings :: "mapping_config read_result \<Rightarrow> error + alias_tables" where
  "loadMappings file =
     (case file of
        ReadFailed \<Rightarrow> Inr no_tables
      | ParseFailed \<Rightarrow> Inr no_tables
      | Parsed mapping \<Rightarrow>
          (case build_tables mapping of
             Inr tables \<Rightarrow> Inr tables
           | Inl PrototypeMember \<Rightarrow> Inl PrototypeMember
           | Inl _ \<Rightarrow> Inr no_tables))"

text \<open>
  The merge script from \<^verbatim>\<open>loadMappings()\<close> to the end of the final assembly: the tables
  are loaded once (line 142) and the databases are resolved with them. \<open>collect_script\<close>
  stops after the two collecting loops.
\<close>

definition collect_script ::
  "mapping_config read_result \<Rightarrow> database \<Rightarrow> database \<Rightarrow> error + engine_state" where
  "collect_script file targetDb sourceDb =
     (case loadMappings file of
        Inl e \<Rightarrow> Inl e
      | Inr tables \<Rightarrow> collect tables targetDb sourceDb)"

definition merge_script ::
  "mapping_config read_result \<Rightarrow> database \<Rightarrow> database \<Rightarrow> error + final_database" where
  "merge_script file targetDb sourceDb =
     (case loadMappings file of
        Inl e \<Rightarrow> Inl e
      | Inr tables \<Rightarrow> resolve tables targetDb sourceDb)"

section \<open>The diagnostics script\<close>











section \<open>The key normalizer as the specification words it\<close>

text \<open>
  The alias a raw key resolves to: the entry of the alias map under the key itself, else
  the entry under the lowercased key; an empty entry counts as none. \<open>display_of\<close> is the
  display name registered for an alias, the alias itself where none (or an empty one) is
  registered or no display-name table is given.
\<close>

definition alias_of :: "(string \<times> string) list \<Rightarrow> string \<Rightarrow> string option" where
  "alias_of aliasMap rawKey =
     (case map_of aliasMap rawKey of
        Some v \<Rightarrow> if v \<noteq> [] then Some v
                  else (case map_of aliasMap (toLowerCase rawKey) of
                          Some w \<Rightarrow> if w \<noteq> [] then Some w else None
                        | None \<Rightarrow> None)
      | None \<Rightarrow> (case map_of aliasMap (toLowerCase rawKey) of
                   Some w \<Rightarrow> if w \<noteq> [] then Some w else None
                 | None \<Rightarrow> None))"

definition display_of :: "(string \<times> string) list option \<Rightarrow> string \<Rightarrow> string" where
  "display_of displayNames v =
     (case displayNames of
        None \<Rightarrow> v
      | Some names \<Rightarrow> (case map_of names v of
                         Some d \<Rightarrow> if d \<noteq> [] then d else v
                       | None \<Rightarrow> v))"

text \<open>The records of a bucket that carry a given model name, in the order of the bucket.\<close>

definition group_of :: "string \<Rightarrow> variant list \<Rightarrow> variant list" where
  "group_of n vs = filter (\<lambda>v. model_name v = n) vs"

section \<open>Runs that meet no member of \<^verbatim>\<open>Object.prototype\<close>\<close>




section \<open>Example inputs\<close>

definition param_named :: "string \<Rightarrow> raw_param" where
  "param_named n =
     \<lparr>p_name = Some n, p_description = None, p_usage = None, p_curve = None, p_value = None,
      p_min = None, p_max = None, p_msb = None, p_lsb = None, p_type = None\<rparr>"

text \<open>
  The scenario of the specification: the target database
  \<^verbatim>\<open>{"BOSS": {"GT-1000": {cc: [{name: "Gain"}]}}}\<close>, the source database
  \<^verbatim>\<open>{"roland": {"gt1000": {cc: [{name: "Gain"}, {name: "Volume"}]}}}\<close>, and alias tables that
  map the brand \<^verbatim>\<open>roland\<close> to \<^verbatim>\<open>boss\<close> (display name \<^verbatim>\<open>BOSS\<close>) and the device \<^verbatim>\<open>gt1000\<close> to
  \<^verbatim>\<open>gt-1000\<close> (display name \<^verbatim>\<open>GT-1000\<close>).
\<close>

definition scenario_tables :: alias_tables where
  "scenario_tables =
     \<lparr>manufacturerMapping = [(''roland'', ''boss'')],
      deviceMapping = [(''gt1000'', ''gt-1000'')],
      brandDisplayNames = [(''boss'', ''BOSS'')],
      modelDisplayNames = [(''boss'', [(''gt-1000'', ''GT-1000'')])]\<rparr>"

definition scenario_target_device :: raw_device where
  "scenario_target_device = empty_device\<lparr>raw_cc := Some [param_named ''Gain'']\<rparr>"

definition scenario_source_device :: raw_device where
  "scenario_source_device =
     empty_device\<lparr>raw_cc := Some [param_named ''Gain'', param_named ''Volume'']\<rparr>"

definition scenario_target :: database where
  "scenario_target = [(''BOSS'', Devices [(''GT-1000'', scenario_target_device)])]"

definition scenario_source :: database where
  "scenario_source = [(''roland'', Devices [(''gt1000'', scenario_source_device)])]"

text \<open>Two standardized records that differ in their channel instructions only.\<close>

definition silent_device :: device_record where
  "silent_device = createStandardDevice empty_device ''Acme'' ''Widget''"

definition instructed_device :: device_record where
  "instructed_device =
     createStandardDevice
       (empty_device\<lparr>raw_midi_channel := Some (Some ''Hold the footswitch to set the channel'')\<rparr>)
       ''Acme'' ''Widget''"

text \<open>A raw device with \<^verbatim>\<open>pc: {description: "bank select"}\<close>.\<close>

definition bank_select_device :: raw_device where
  "bank_select_device = empty_device\<lparr>raw_pc := Some (PcObject (Some ''bank select''))\<rparr>"

text \<open>The alias tables of a brand \<^verbatim>\<open>{name: "Access Music", value: "access"}\<close>.\<close>

definition access_aliases :: "(string \<times> string) list" where
  "access_aliases = [(''access'', ''access''), (''access music'', ''access'')]"

definition access_names :: "(string \<times> string) list" where
  "access_names = [(''access'', ''Access Music'')]"

text \<open>The variant stored for an empty raw device.\<close>

definition plain_variant :: "string \<Rightarrow> string \<Rightarrow> string \<Rightarrow> string \<Rightarrow> variant" where
  "plain_variant brandKey deviceKey brandName deviceName =
     \<lparr>v_brandKey = brandKey, v_deviceKey = deviceKey, canonicalBrandName = brandName,
      canonicalDeviceName = deviceName,
      data = createStandardDevice empty_device brandName deviceName\<rparr>"

text \<open>
  A configuration with two brand entries of the same name,
  \<^verbatim>\<open>{name: "Foo Bar", value: "fb1"}\<close> and \<^verbatim>\<open>{name: "Foo Bar", value: "fb2"}\<close>; a target
  database with the brand \<^verbatim>\<open>fb1\<close> (device \<^verbatim>\<open>x\<close>) and a source database with the brand
  \<^verbatim>\<open>fb2\<close> (device \<^verbatim>\<open>y\<close>). \<open>twin_state\<close> is what the two collecting loops build from them.
\<close>

definition brand_entry :: "string \<Rightarrow> string \<Rightarrow> brand_config" where
  "brand_entry n v = \<lparr>b_name = Some n, b_value = Some v, b_models = None\<rparr>"

definition twin_config :: mapping_config where
  "twin_config = \<lparr>brands = Some [brand_entry ''Foo Bar'' ''fb1'', brand_entry ''Foo Bar'' ''fb2'']\<rparr>"

definition twin_target :: database where
  "twin_target = [(''fb1'', Devices [(''x'', empty_device)])]"

definition twin_source :: database where
  "twin_source = [(''fb2'', Devices [(''y'', empty_device)])]"

definition twin_state :: engine_state where
  "twin_state =
     \<lparr>manufacturers =
        [(''fb1'', \<lparr>variants = [''fb1''], canonicalName = ''Foo Bar'', devices = [(''x'', ''fb1_x'')]\<rparr>),
         (''fb2'', \<lparr>variants = [''fb2''], canonicalName = ''Foo Bar'', devices = [(''y'', ''fb2_y'')]\<rparr>)],
      normalizedDeviceMap =
        [(''fb1_x'', [plain_variant ''fb1'' ''x'' ''Foo Bar'' ''x'']),
         (''fb2_y'', [plain_variant ''fb2'' ''y'' ''Foo Bar'' ''y''])]\<rparr>"

text \<open>
  A collision of device ids: the target device \<^verbatim>\<open>c\<close> of the brand \<^verbatim>\<open>a_b\<close> and the source
  device \<^verbatim>\<open>b_c\<close> of the brand \<^verbatim>\<open>a\<close> both get the id \<^verbatim>\<open>a_b_c\<close>, with the display names \<^verbatim>\<open>c\<close>
  and \<^verbatim>\<open>b_c\<close>. \<open>collide_state\<close> is what the collecting loops build from them without aliases.
\<close>

definition collide_target :: database where
  "collide_target = [(''a_b'', Devices [(''c'', empty_device)])]"

definition collide_source :: database where
  "collide_source = [(''a'', Devices [(''b_c'', empty_device)])]"

definition collide_state :: engine_state where
  "collide_state =
     \<lparr>manufacturers =
        [(''a_b'', \<lparr>variants = [''a_b''], canonicalName = ''a_b'', devices = [(''c'', ''a_b_c'')]\<rparr>),
         (''a'', \<lparr>variants = [''a''], canonicalName = ''a'', devices = [(''b_c'', ''a_b_c'')]\<rparr>)],
      normalizedDeviceMap =
        [(''a_b_c'', [plain_variant ''a_b'' ''c'' ''a_b'' ''c'',
                      plain_variant ''a'' ''b_c'' ''a'' ''b_c''])]\<rparr>"

text \<open>
  The same collision under a configuration that names the brands \<^verbatim>\<open>a_b\<close> and \<^verbatim>\<open>w1\<close> both
  \<^verbatim>\<open>Alpha Beta\<close>, and the brands \<^verbatim>\<open>a\<close> and \<^verbatim>\<open>w2\<close> both \<^verbatim>\<open>Alpha\<close>; the source database also
  has the brands \<^verbatim>\<open>w1\<close> and \<^verbatim>\<open>w2\<close>, without devices. \<open>wiped_state\<close> is what the collecting
  loops build.
\<close>

definition wiping_config :: mapping_config where
  "wiping_config =
     \<lparr>brands = Some [brand_entry ''Alpha Beta'' ''a_b'', brand_entry ''Alpha'' ''a'',
                     brand_entry ''Alpha Beta'' ''w1'', brand_entry ''Alpha'' ''w2'']\<rparr>"

definition wiping_source :: database where
  "wiping_source =
     [(''a'', Devices [(''b_c'', empty_device)]), (''w1'', Devices []), (''w2'', Devices [])]"

definition wiped_state :: engine_state where
  "wiped_state =
     \<lparr>manufacturers =
        [(''a_b'', \<lparr>variants = [''a_b''], canonicalName = ''Alpha Beta'',
                   devices = [(''c'', ''a_b_c'')]\<rparr>),
         (''a'', \<lparr>variants = [''a''], canonicalName = ''Alpha'', devices = [(''b_c'', ''a_b_c'')]\<rparr>),
         (''w1'', \<lparr>variants = [''w1''], canonicalName = ''Alpha Beta'', devices = []\<rparr>),
         (''w2'', \<lparr>variants = [''w2''], canonicalName = ''Alpha'', devices = []\<rparr>)],
      normalizedDeviceMap =
        [(''a_b_c'', [plain_variant ''a_b'' ''c'' ''Alpha Beta'' ''c'',
                      plain_variant ''a'' ''b_c'' ''Alpha'' ''b_c''])]\<rparr>"







section \<open>Properties of dictionaries and loops\<close>

lemma map_of_insert_index: "map_of (insert_index k v ps) = (map_of ps)(k \<mapsto> v)"
proof (induction ps)
  case Nil
  show ?case by simp
next
  case (Cons p ps)
  obtain k' v' where p: "p = (k', v')"
    by (cases p)
  show ?case
  proof (cases "is_array_index k' \<and> dec_value k' < dec_value k")
    case True
    then have "k' \<noteq> k"
      by auto
    with True Cons p show ?thesis
      by (auto simp: fun_eq_iff)
  next
    case False
    with p show ?thesis
      by (auto simp: fun_eq_iff)
  qed
qed

lemma map_of_overwrite:
  "map_of (map (\<lambda>(k', v'). if k' = k then (k', v) else (k', v')) obj) x =
     (if x = k then map_option (\<lambda>_. v) (map_of obj k) else map_of obj x)"
  by (induction obj) auto

lemma map_fst_overwrite:
  "map fst (map (\<lambda>(k', v'). if k' = k then (k', v) else (k', v')) obj) = map fst obj"
  by (induction obj) auto

lemma map_of_js_set: "map_of (js_set obj k v) = (map_of obj)(k \<mapsto> v)"
proof (cases "map_of obj k")
  case None
  then show ?thesis
    by (auto simp: js_set_def map_of_insert_index fun_eq_iff map_add_def split: option.splits)
next
  case (Some old)
  then show ?thesis
    by (auto simp: js_set_def map_of_overwrite fun_eq_iff)
qed

lemma set_insert_index: "set (insert_index k v ps) = insert (k, v) (set ps)"
  by (induction k v ps rule: insert_index.induct) auto

lemma keys_js_set: "fst ` set (js_set obj k v) = insert k (fst ` set obj)"
proof -
  have "dom (map_of (js_set obj k v)) = insert k (dom (map_of obj))"
    by (simp add: map_of_js_set)
  then show ?thesis
    by (simp add: dom_map_of_conv_image_fst)
qed

lemma distinct_insert_index:
  "k \<notin> fst ` set ps \<Longrightarrow> distinct (map fst ps) \<Longrightarrow> distinct (map fst (insert_index k v ps))"
  by (induction k v ps rule: insert_index.induct) (auto simp: set_insert_index)

lemma distinct_js_set:
  assumes d: "distinct (map fst obj)"
  shows "distinct (map fst (js_set obj k v))"
proof (cases "map_of obj k")
  case None
  then have "k \<notin> fst ` set obj"
    by (simp add: map_of_eq_None_iff)
  with d None show ?thesis
    by (auto simp: js_set_def distinct_insert_index)
next
  case (Some old)
  then have "js_set obj k v = map (\<lambda>(k', v'). if k' = k then (k', v) else (k', v')) obj"
    by (simp add: js_set_def)
  with d show ?thesis
    by (simp only: map_fst_overwrite)
qed

lemma js_put_Inr: "js_put obj k v = Inr obj' \<Longrightarrow> k \<noteq> ''__proto__'' \<and> obj' = js_set obj k v"
  by (simp add: js_put_def split: if_splits)

lemma fold_result_append:
  "fold_result f (xs @ ys) s =
     (case fold_result f xs s of Inl e \<Rightarrow> Inl e | Inr s' \<Rightarrow> fold_result f ys s')"
  by (induction xs arbitrary: s) (auto split: sum.splits)

text \<open>A property every step keeps holds after a loop that returns.\<close>

lemma fold_result_invariant:
  assumes "fold_result f xs s = Inr s'"
    and "P s"
    and "\<And>x a b. x \<in> set xs \<Longrightarrow> P a \<Longrightarrow> f x a = Inr b \<Longrightarrow> P b"
  shows "P s'"
  using assms
proof (induction xs arbitrary: s)
  case Nil
  then show ?case by simp
next
  case (Cons x xs)
  from Cons.prems(1) obtain s1 where s1: "f x s = Inr s1" and rest: "fold_result f xs s1 = Inr s'"
    by (auto split: sum.splits)
  have p1: "P s1"
    using Cons.prems(3) [of x s s1] Cons.prems(2) s1 by simp
  have step: "\<And>y a b. y \<in> set xs \<Longrightarrow> P a \<Longrightarrow> f y a = Inr b \<Longrightarrow> P b"
  proof -
    fix y a b
    assume "y \<in> set xs" and "P a" and "f y a = Inr b"
    then show "P b"
      using Cons.prems(3) [of y a b] by simp
  qed
  show ?case
    by (rule Cons.IH [OF rest p1 step])
qed

lemma set_js_set_subset: "set (js_set obj k v) \<subseteq> insert (k, v) (set obj)"
  by (auto simp: js_set_def set_insert_index split: option.splits if_splits)

lemma js_set_all:
  assumes "\<forall>e \<in> set obj. R (snd e)" and "R v"
  shows "\<forall>e \<in> set (js_set obj k v). R (snd e)"
proof
  fix e
  assume "e \<in> set (js_set obj k v)"
  with set_js_set_subset [of obj k v] have "e = (k, v) \<or> e \<in> set obj"
    by auto
  with assms show "R (snd e)"
    by auto
qed

lemma js_get_OwnD: "js_get obj k = Own v \<Longrightarrow> (k, v) \<in> set obj"
  by (auto simp: js_get_def split: option.splits if_splits dest: map_of_SomeD)

section \<open>Properties of the device merger\<close>

lemma cc_mergeDevices:
  "cc (mergeDevices a b) = merge_array (cc a) (cc b)"
  by (simp add: mergeDevices_def ensure_required_def merge_instructions_def)

lemma nrpn_mergeDevices:
  "nrpn (mergeDevices a b) = merge_array (nrpn a) (nrpn b)"
  by (simp add: mergeDevices_def ensure_required_def merge_instructions_def)

lemma pc_mergeDevices:
  "pc (mergeDevices a b) = merge_array (pc a) (pc b)"
  by (simp add: mergeDevices_def ensure_required_def merge_instructions_def)

lemma instructions_mergeDevices:
  "channel_instructions (midi_channel (mergeDevices a b)) =
     (if channel_instructions (midi_channel a) \<noteq> [] \<and> channel_instructions (midi_channel b) \<noteq> []
      then (if length (channel_instructions (midi_channel a))
                 \<ge> length (channel_instructions (midi_channel b))
            then channel_instructions (midi_channel a)
            else channel_instructions (midi_channel b))
      else channel_instructions (midi_channel a))"
  by (simp add: mergeDevices_def ensure_required_def merge_instructions_def)

lemma merge_array_both:
  "a \<noteq> [] \<Longrightarrow> b \<noteq> [] \<Longrightarrow> merge_array a b = (if length a \<ge> length b then a else b)"
  by (simp add: merge_array_def)

text \<open>
  C2. When both records have a non-empty array in one of the fields \<open>cc\<close>, \<open>nrpn\<close>, \<open>pc\<close>,
  the merged record holds, for that field, one of the two arrays whole: the primary's when
  it is at least as long, else the secondary's. Its length is the larger of the two
  lengths, so it is never the concatenation. In particular a primary \<open>cc\<close> of length 3
  against a secondary \<open>cc\<close> of length 1 gives exactly the primary's \<open>cc\<close>.
\<close>

theorem mergeDevices_length_wins:
  "(cc a \<noteq> [] \<and> cc b \<noteq> [] \<longrightarrow>
      cc (mergeDevices a b) = (if length (cc a) \<ge> length (cc b) then cc a else cc b) \<and>
      length (cc (mergeDevices a b)) = max (length (cc a)) (length (cc b))) \<and>
   (nrpn a \<noteq> [] \<and> nrpn b \<noteq> [] \<longrightarrow>
      nrpn (mergeDevices a b) = (if length (nrpn a) \<ge> length (nrpn b) then nrpn a else nrpn b) \<and>
      length (nrpn (mergeDevices a b)) = max (length (nrpn a)) (length (nrpn b))) \<and>
   (pc a \<noteq> [] \<and> pc b \<noteq> [] \<longrightarrow>
      pc (mergeDevices a b) = (if length (pc a) \<ge> length (pc b) then pc a else pc b) \<and>
      length (pc (mergeDevices a b)) = max (length (pc a)) (length (pc b))) \<and>
   (length (cc a) = 3 \<and> length (cc b) = 1 \<longrightarrow>
      cc (mergeDevices a b) = cc a \<and> length (cc (mergeDevices a b)) = 3)"
proof -
  have len3: "length (cc a) = 3 \<and> length (cc b) = 1 \<longrightarrow> cc a \<noteq> [] \<and> cc b \<noteq> []"
    by auto
  show ?thesis
    using len3
    by (auto simp: cc_mergeDevices nrpn_mergeDevices pc_mergeDevices merge_array_both)
qed

theorem mergeDevices_length_wins_witness:
  "cc (mergeDevices
         (silent_device\<lparr>cc := map standard_cc [param_named ''a'', param_named ''b'', param_named ''c'']\<rparr>)
         (silent_device\<lparr>cc := map standard_cc [param_named ''d'']\<rparr>))
   = map standard_cc [param_named ''a'', param_named ''b'', param_named ''c'']"
  using mergeDevices_length_wins
          [of "silent_device\<lparr>cc := map standard_cc [param_named ''a'', param_named ''b'', param_named ''c'']\<rparr>"
              "silent_device\<lparr>cc := map standard_cc [param_named ''d'']\<rparr>"]
  by simp

text \<open>
  C10. The comparisons of \<open>mergeDevices\<close> break ties in favour of the primary record: two
  non-empty arrays of equal length give the primary's array, for each of \<open>cc\<close>, \<open>nrpn\<close>,
  \<open>pc\<close>, and two non-empty instruction strings of equal length give the primary's string.
\<close>

theorem mergeDevices_ties_primary:
  "(cc a \<noteq> [] \<and> cc b \<noteq> [] \<and> length (cc a) = length (cc b) \<longrightarrow>
      cc (mergeDevices a b) = cc a) \<and>
   (nrpn a \<noteq> [] \<and> nrpn b \<noteq> [] \<and> length (nrpn a) = length (nrpn b) \<longrightarrow>
      nrpn (mergeDevices a b) = nrpn a) \<and>
   (pc a \<noteq> [] \<and> pc b \<noteq> [] \<and> length (pc a) = length (pc b) \<longrightarrow>
      pc (mergeDevices a b) = pc a) \<and>
   (channel_instructions (midi_channel a) \<noteq> [] \<and>
    channel_instructions (midi_channel b) \<noteq> [] \<and>
    length (channel_instructions (midi_channel a)) = length (channel_instructions (midi_channel b)) \<longrightarrow>
      channel_instructions (midi_channel (mergeDevices a b)) = channel_instructions (midi_channel a))"
  by (simp add: cc_mergeDevices nrpn_mergeDevices pc_mergeDevices merge_array_both
        instructions_mergeDevices)

theorem mergeDevices_ties_primary_witness:
  "cc (mergeDevices
         (silent_device\<lparr>cc := map standard_cc [param_named ''a''],
                         midi_channel := \<lparr>channel_instructions = ''abc''\<rparr>\<rparr>)
         (silent_device\<lparr>cc := map standard_cc [param_named ''d''],
                         midi_channel := \<lparr>channel_instructions = ''xyz''\<rparr>\<rparr>))
     = map standard_cc [param_named ''a''] \<and>
   channel_instructions (midi_channel (mergeDevices
         (silent_device\<lparr>cc := map standard_cc [param_named ''a''],
                         midi_channel := \<lparr>channel_instructions = ''abc''\<rparr>\<rparr>)
         (silent_device\<lparr>cc := map standard_cc [param_named ''d''],
                         midi_channel := \<lparr>channel_instructions = ''xyz''\<rparr>\<rparr>)))
     = ''abc''"
  using mergeDevices_ties_primary
          [of "silent_device\<lparr>cc := map standard_cc [param_named ''a''],
                              midi_channel := \<lparr>channel_instructions = ''abc''\<rparr>\<rparr>"
              "silent_device\<lparr>cc := map standard_cc [param_named ''d''],
                              midi_channel := \<lparr>channel_instructions = ''xyz''\<rparr>\<rparr>"]
  by simp

text \<open>
  C6. With an empty instruction string in the primary record and a non-empty one in the
  secondary, \<open>mergeDevices\<close> returns the empty string of the primary: the longer string is
  taken only when both are non-empty. This holds for every primary record whose
  instruction string is empty, whatever the secondary.
\<close>

theorem mergeDevices_keeps_empty_instructions:
  "channel_instructions (midi_channel silent_device) = [] \<and>
   channel_instructions (midi_channel instructed_device) = ''Hold the footswitch to set the channel'' \<and>
   channel_instructions (midi_channel (mergeDevices silent_device instructed_device)) = [] \<and>
   channel_instructions
     (midi_channel (mergeDevices (a\<lparr>midi_channel := \<lparr>channel_instructions = []\<rparr>\<rparr>) b)) = []"
  by (simp add: instructions_mergeDevices silent_device_def instructed_device_def
        createStandardDevice_def str_or_def empty_device_def)

section \<open>Properties of the key normalizer and the standardizer\<close>

lemma js_get_Own_iff: "js_get obj k = Own v \<longleftrightarrow> map_of obj k = Some v"
  by (simp add: js_get_def split: option.splits)

lemma js_get_Absent_map_of: "js_get obj k = Absent \<Longrightarrow> map_of obj k = None"
  by (simp add: js_get_def split: option.splits if_splits)

lemma mapped_key_result:
  "mapped_key v displayNames = Inr r \<Longrightarrow>
     r = \<lparr>normalized = normalize_id v, canonical = display_of displayNames v\<rparr>"
  by (auto simp: mapped_key_def display_of_def js_get_def
           split: option.splits lookup.splits if_splits)

lemma lowercase_lookup_result:
  "lowercase_lookup key aliasMap displayNames = Inr r \<Longrightarrow>
     r = (case (case map_of aliasMap (toLowerCase key) of
                  Some w \<Rightarrow> if w \<noteq> [] then Some w else None
                | None \<Rightarrow> None) of
            Some v \<Rightarrow> \<lparr>normalized = normalize_id v, canonical = display_of displayNames v\<rparr>
          | None \<Rightarrow> \<lparr>normalized = normalize_id key, canonical = key\<rparr>)"
  by (auto simp: lowercase_lookup_def unmapped_key_def js_get_def
           dest: mapped_key_result split: option.splits lookup.splits if_splits)

lemma normalizeAndMapKey_Inr:
  assumes "normalizeAndMapKey rawKey aliasMap displayNames = Inr r"
  shows "normalized r =
           normalize_id (case alias_of aliasMap rawKey of Some v \<Rightarrow> v | None \<Rightarrow> rawKey) \<and>
         canonical r =
           (case alias_of aliasMap rawKey of
              Some v \<Rightarrow> display_of displayNames v
            | None \<Rightarrow> rawKey)"
proof (cases "map_of aliasMap rawKey")
  case None
  then have "lowercase_lookup rawKey aliasMap displayNames = Inr r"
    using assms by (simp add: normalizeAndMapKey_def js_get_def split: if_splits)
  from lowercase_lookup_result [OF this] None show ?thesis
    by (simp add: alias_of_def split: option.splits)
next
  case (Some v)
  show ?thesis
  proof (cases "v = []")
    case True
    then have "lowercase_lookup rawKey aliasMap displayNames = Inr r"
      using assms Some by (simp add: normalizeAndMapKey_def js_get_def)
    from lowercase_lookup_result [OF this] Some True show ?thesis
      by (simp add: alias_of_def split: option.splits)
  next
    case False
    then have "mapped_key v displayNames = Inr r"
      using assms Some by (simp add: normalizeAndMapKey_def js_get_def)
    from mapped_key_result [OF this] Some False show ?thesis
      by (simp add: alias_of_def)
  qed
qed

lemma mapped_key_returns:
  "v \<notin> set object_prototype_keys \<Longrightarrow>
     mapped_key v displayNames =
       Inr \<lparr>normalized = normalize_id v, canonical = display_of displayNames v\<rparr>"
  by (auto simp: mapped_key_def display_of_def js_get_def split: option.splits)

lemma normalizeAndMapKey_returns:
  assumes "rawKey \<notin> set object_prototype_keys"
    and "toLowerCase rawKey \<notin> set object_prototype_keys"
    and "\<forall>v. alias_of aliasMap rawKey = Some v \<longrightarrow> v \<notin> set object_prototype_keys"
  shows "\<exists>r. normalizeAndMapKey rawKey aliasMap displayNames = Inr r"
  using assms
  by (auto simp: normalizeAndMapKey_def lowercase_lookup_def js_get_def alias_of_def
        mapped_key_returns split: option.splits)

lemma normalizeAndMapKey_access:
  "normalizeAndMapKey ''Access Music'' access_aliases (Some access_names) =
     Inr \<lparr>normalized = ''access'', canonical = ''Access Music''\<rparr>"
  by code_simp

text \<open>
  C4, as the script has it. Whenever \<open>normalizeAndMapKey\<close> returns, the normalized id is
  the alias found for the raw key (under the key itself, else under its lowercase form),
  or the raw key when there is none, lowercased with every run of whitespace replaced by
  one underscore; it is computed from the alias, not from the display name. The canonical
  name is the display name registered for the alias when there is a non-empty one, else the
  alias, and the raw key when the key has no alias. And it does return whenever neither the
  raw key, nor its lowercase form, nor the alias names a member of \<^verbatim>\<open>Object.prototype\<close>.
\<close>

theorem normalizeAndMapKey_result:
  "(\<forall>r. normalizeAndMapKey rawKey aliasMap displayNames = Inr r \<longrightarrow>
      normalized r =
        normalize_id (case alias_of aliasMap rawKey of Some v \<Rightarrow> v | None \<Rightarrow> rawKey) \<and>
      canonical r =
        (case alias_of aliasMap rawKey of
           Some v \<Rightarrow> display_of displayNames v
         | None \<Rightarrow> rawKey)) \<and>
   (rawKey \<notin> set object_prototype_keys \<and> toLowerCase rawKey \<notin> set object_prototype_keys \<and>
    (\<forall>v. alias_of aliasMap rawKey = Some v \<longrightarrow> v \<notin> set object_prototype_keys) \<longrightarrow>
      (\<exists>r. normalizeAndMapKey rawKey aliasMap displayNames = Inr r))"
  using normalizeAndMapKey_Inr [of rawKey aliasMap displayNames]
    normalizeAndMapKey_returns [of rawKey aliasMap displayNames]
  by blast

theorem normalizeAndMapKey_result_witness:
  "normalizeAndMapKey ''Access Music'' access_aliases (Some access_names) =
     Inr \<lparr>normalized = ''access'', canonical = ''Access Music''\<rparr> \<and>
   ''Access Music'' \<notin> set object_prototype_keys \<and>
   toLowerCase ''Access Music'' \<notin> set object_prototype_keys \<and>
   alias_of access_aliases ''Access Music'' = Some ''access'' \<and>
   ''access'' \<notin> set object_prototype_keys \<and>
   normalize_id ''access'' = ''access'' \<and>
   display_of (Some access_names) ''access'' = ''Access Music''"
proof -
  have a: "alias_of access_aliases ''Access Music'' = Some ''access''"
    by code_simp
  have b: "normalize_id ''access'' = ''access''"
    by code_simp
  have c: "display_of (Some access_names) ''access'' = ''Access Music''"
    by code_simp
  have d: "''Access Music'' \<notin> set object_prototype_keys"
    by code_simp
  have e: "toLowerCase ''Access Music'' \<notin> set object_prototype_keys"
    by code_simp
  have f: "''access'' \<notin> set object_prototype_keys"
    by code_simp
  from normalizeAndMapKey_result [of "''Access Music''" access_aliases "Some access_names"] d e f
  obtain r where r: "normalizeAndMapKey ''Access Music'' access_aliases (Some access_names) = Inr r"
    unfolding a by auto
  from normalizeAndMapKey_result [of "''Access Music''" access_aliases "Some access_names"] r
  have "normalized r = normalize_id ''access'' \<and>
        canonical r = display_of (Some access_names) ''access''"
    by (simp add: a)
  then have "normalized r = ''access'' \<and> canonical r = ''Access Music''"
    by (simp only: b c)
  then have "r = \<lparr>normalized = ''access'', canonical = ''Access Music''\<rparr>"
    by (cases r) simp
  with r a b c d e f show ?thesis by simp
qed

text \<open>
  C4, as the specification words it, fails: for the brand \<^verbatim>\<open>Access Music\<close> with alias
  \<^verbatim>\<open>access\<close> the normalized id is \<^verbatim>\<open>access\<close>, while the canonical display name, lowercased
  and underscored, is \<^verbatim>\<open>access_music\<close>.
\<close>

theorem normalizeAndMapKey_id_not_from_display_name:
  "normalizeAndMapKey ''Access Music'' access_aliases (Some access_names) =
     Inr \<lparr>normalized = ''access'', canonical = ''Access Music''\<rparr> \<and>
   normalize_id ''Access Music'' = ''access_music'' \<and>
   ''access'' \<noteq> ''access_music''"
  by code_simp

text \<open>
  C5. The pre-normalization step turns \<^verbatim>\<open>pc: {description: "bank select"}\<close> into the
  one-element array with the name \<^verbatim>\<open>Program Change\<close>, but \<open>createStandardDevice\<close> does not
  read it: the standardized record of every raw device has an empty \<open>pc\<close>.
\<close>

theorem createStandardDevice_drops_pc:
  "raw_pc (normalize_pc bank_select_device) =
     Some (PcArray [program_change (Some ''bank select'')]) \<and>
   p_name (program_change (Some ''bank select'')) = Some ''Program Change'' \<and>
   p_description (program_change (Some ''bank select'')) = Some ''bank select'' \<and>
   pc (createStandardDevice (normalize_pc bank_select_device) brandName deviceName) = [] \<and>
   pc (createStandardDevice (normalize_pc deviceData) brandName deviceName) = []"
  by (simp add: createStandardDevice_def normalize_pc_def bank_select_device_def
        program_change_def str_or_def empty_device_def)

section \<open>The scenario of the specification\<close>

text \<open>
  C1. On the scenario inputs the final database has the single brand \<^verbatim>\<open>BOSS\<close> with the
  single device \<^verbatim>\<open>GT-1000\<close>; its record is the standardized source record, so its \<open>cc\<close> is
  the source's list of two parameters, \<^verbatim>\<open>Gain\<close> and \<^verbatim>\<open>Volume\<close>.
\<close>

theorem scenario_resolves_to_source_cc:
  "resolve scenario_tables scenario_target scenario_source =
     Inr [(''BOSS'',
           Brand [(''GT-1000'', createStandardDevice scenario_source_device ''BOSS'' ''GT-1000'')])] \<and>
   cc (createStandardDevice scenario_source_device ''BOSS'' ''GT-1000'') =
     map standard_cc [param_named ''Gain'', param_named ''Volume''] \<and>
   length (cc (createStandardDevice scenario_source_device ''BOSS'' ''GT-1000'')) = 2 \<and>
   map cc_name (cc (createStandardDevice scenario_source_device ''BOSS'' ''GT-1000'')) =
     [''Gain'', ''Volume'']"
  by code_simp

section \<open>Properties of the final assembly\<close>

lemma add_variant_Inr:
  "add_variant v acc = Inr acc' \<Longrightarrow>
     map_of acc' = (map_of acc)(model_name v \<mapsto> (case map_of acc (model_name v) of None \<Rightarrow> [v] | Some ws \<Rightarrow> ws @ [v])) \<and>
     (\<exists>x. acc' = js_set acc (model_name v) x)"
  by (auto simp: add_variant_def js_get_def map_of_js_set split: option.splits if_splits)

lemma group_variants:
  assumes "fold_result add_variant vs acc = Inr vbn" and "distinct (map fst acc)"
  shows "distinct (map fst vbn) \<and>
         (\<forall>n. map_of vbn n =
            (case map_of acc n of
               None \<Rightarrow> if group_of n vs = [] then None else Some (group_of n vs)
             | Some ws \<Rightarrow> Some (ws @ group_of n vs)))"
  using assms
proof (induction vs arbitrary: acc)
  case Nil
  then show ?case
    by (auto simp: group_of_def split: option.splits)
next
  case (Cons v vs)
  from Cons.prems(1) obtain acc1 where a1: "add_variant v acc = Inr acc1"
    and rest: "fold_result add_variant vs acc1 = Inr vbn"
    by (auto split: sum.splits)
  from add_variant_Inr [OF a1] obtain x where
    m1: "map_of acc1 = (map_of acc)(model_name v \<mapsto> (case map_of acc (model_name v) of None \<Rightarrow> [v] | Some ws \<Rightarrow> ws @ [v]))"
    and s1: "acc1 = js_set acc (model_name v) x"
    by blast
  have d1: "distinct (map fst acc1)"
    using Cons.prems(2) s1 by (simp add: distinct_js_set)
  from Cons.IH [OF rest d1] m1 show ?case
    by (auto simp: group_of_def split: option.splits)
qed

lemma process_model_Inr:
  "process_model b (n, g) bo = Inr bo' \<Longrightarrow>
     \<exists>r. merge_model b n g = Inr r \<and> bo' = js_set bo n r"
  by (auto simp: process_model_def dest: js_put_Inr split: sum.splits)

lemma process_models:
  assumes "fold_result (process_model b) es bo = Inr bo'" and "distinct (map fst es)"
  shows "(\<forall>n g. map_of es n = Some g \<longrightarrow>
            (\<exists>r. merge_model b n g = Inr r \<and> map_of bo' n = Some r)) \<and>
         (\<forall>n. map_of es n = None \<longrightarrow> map_of bo' n = map_of bo n)"
  using assms
proof (induction es arbitrary: bo)
  case Nil
  then show ?case by simp
next
  case (Cons e es)
  obtain n0 g0 where e: "e = (n0, g0)"
    by (cases e)
  from Cons.prems(1) e obtain bo1 where p1: "process_model b (n0, g0) bo = Inr bo1"
    and rest: "fold_result (process_model b) es bo1 = Inr bo'"
    by (auto split: sum.splits)
  from process_model_Inr [OF p1] obtain r0 where
    r0: "merge_model b n0 g0 = Inr r0" and bo1: "bo1 = js_set bo n0 r0"
    by blast
  from Cons.prems(2) e have d: "distinct (map fst es)" and fresh: "map_of es n0 = None"
    by (auto simp: map_of_eq_None_iff)
  note ih = Cons.IH [OF rest d]
  show ?case
  proof (intro conjI allI impI)
    fix n g
    assume "map_of (e # es) n = Some g"
    then consider "n = n0" "g = g0" | "n \<noteq> n0" "map_of es n = Some g"
      using e by (auto split: if_splits)
    then show "\<exists>r. merge_model b n g = Inr r \<and> map_of bo' n = Some r"
    proof cases
      case 1
      with ih fresh have "map_of bo' n0 = map_of bo1 n0"
        by simp
      with 1 r0 bo1 show ?thesis
        by (simp add: map_of_js_set)
    next
      case 2
      with ih show ?thesis
        by simp
    qed
  next
    fix n
    assume "map_of (e # es) n = None"
    then have "n \<noteq> n0" and "map_of es n = None"
      using e by (auto split: if_splits)
    with ih bo1 show "map_of bo' n = map_of bo n"
      by (simp add: map_of_js_set)
  qed
qed

lemma process_device_Inr:
  assumes "process_device ndm b (nd, deviceId) bo = Inr bo'"
  shows "\<exists>vs. js_get ndm deviceId = Own vs \<and>
           (\<forall>n. group_of n vs \<noteq> [] \<longrightarrow>
              (\<exists>r. merge_model b n (group_of n vs) = Inr r \<and> map_of bo' n = Some r)) \<and>
           (\<forall>n. group_of n vs = [] \<longrightarrow> map_of bo' n = map_of bo n)"
proof -
  from assms obtain vs vbn where own: "js_get ndm deviceId = Own vs"
    and g: "fold_result add_variant vs [] = Inr vbn"
    and p: "fold_result (process_model b) vbn bo = Inr bo'"
    by (auto simp: process_device_def split: lookup.splits sum.splits)
  from group_variants [OF g] have d: "distinct (map fst vbn)"
    and m: "\<And>n. map_of vbn n = (if group_of n vs = [] then None else Some (group_of n vs))"
    by auto
  from process_models [OF p d] m own show ?thesis
    by auto
qed

lemma brand_object_entries:
  assumes "fold_result (process_device ndm b) ds bo0 = Inr bo"
  shows "(\<forall>n r. map_of bo0 n = Some r \<longrightarrow> (\<exists>r'. map_of bo n = Some r')) \<and>
         (\<forall>e \<in> set ds. \<exists>vs. js_get ndm (snd e) = Own vs \<and>
              (\<forall>v \<in> set vs. \<exists>r. map_of bo (model_name v) = Some r)) \<and>
         (\<forall>n r. map_of bo n = Some r \<longrightarrow>
              map_of bo0 n = Some r \<or>
              (\<exists>e \<in> set ds. \<exists>vs. js_get ndm (snd e) = Own vs \<and> group_of n vs \<noteq> [] \<and>
                   merge_model b n (group_of n vs) = Inr r))"
  using assms
proof (induction ds arbitrary: bo0)
  case Nil
  then show ?case by simp
next
  case (Cons d ds)
  obtain nd deviceId where d: "d = (nd, deviceId)"
    by (cases d)
  from Cons.prems d obtain bo1 where p1: "process_device ndm b (nd, deviceId) bo0 = Inr bo1"
    and rest: "fold_result (process_device ndm b) ds bo1 = Inr bo"
    by (auto split: sum.splits)
  from process_device_Inr [OF p1] obtain vs where own: "js_get ndm deviceId = Own vs"
    and hit: "\<And>n. group_of n vs \<noteq> [] \<Longrightarrow>
                \<exists>r. merge_model b n (group_of n vs) = Inr r \<and> map_of bo1 n = Some r"
    and miss: "\<And>n. group_of n vs = [] \<Longrightarrow> map_of bo1 n = map_of bo0 n"
    by blast
  note ih = Cons.IH [OF rest]
  have keep1: "\<exists>r'. map_of bo1 n = Some r'" if "map_of bo0 n = Some r" for n r
    using that hit [of n] miss [of n] by (cases "group_of n vs = []") auto
  have keep: "\<exists>r'. map_of bo n = Some r'" if "map_of bo1 n = Some r" for n r
    using that ih by blast
  show ?case
  proof (intro conjI allI impI ballI)
    fix n r
    assume "map_of bo0 n = Some r"
    then show "\<exists>r'. map_of bo n = Some r'"
      using keep1 keep by blast
  next
    fix e
    assume "e \<in> set (d # ds)"
    then consider "e = d" | "e \<in> set ds"
      by auto
    then show "\<exists>vs. js_get ndm (snd e) = Own vs \<and>
                 (\<forall>v \<in> set vs. \<exists>r. map_of bo (model_name v) = Some r)"
    proof cases
      case 1
      have "\<exists>r. map_of bo (model_name v) = Some r" if "v \<in> set vs" for v
      proof -
        from that have "group_of (model_name v) vs \<noteq> []"
          by (auto simp: group_of_def filter_empty_conv)
        from hit [OF this] keep show ?thesis
          by blast
      qed
      with 1 d own show ?thesis
        by auto
    next
      case 2
      with ih show ?thesis
        by blast
    qed
  next
    fix n r
    assume "map_of bo n = Some r"
    with ih consider "map_of bo1 n = Some r"
      | "\<exists>e \<in> set ds. \<exists>vs. js_get ndm (snd e) = Own vs \<and> group_of n vs \<noteq> [] \<and>
             merge_model b n (group_of n vs) = Inr r"
      by blast
    then show "map_of bo0 n = Some r \<or>
               (\<exists>e \<in> set (d # ds). \<exists>vs. js_get ndm (snd e) = Own vs \<and> group_of n vs \<noteq> [] \<and>
                    merge_model b n (group_of n vs) = Inr r)"
    proof cases
      case 1
      show ?thesis
      proof (cases "group_of n vs = []")
        case True
        with miss [OF True] 1 show ?thesis
          by simp
      next
        case False
        from hit [OF False] 1 have "merge_model b n (group_of n vs) = Inr r"
          by auto
        with False own d show ?thesis
          by auto
      qed
    next
      case 2
      then show ?thesis
        by auto
    qed
  qed
qed

lemma assemble_brand_Inr:
  assumes "assemble_brand ndm (nb, m) finalDb = Inr finalDb'"
  shows "\<exists>brandObj. fold_result (process_device ndm (canonicalName m)) (devices m) [] = Inr brandObj \<and>
           map_of finalDb' = (map_of finalDb)(canonicalName m \<mapsto> Brand brandObj)"
  using assms
  by (auto simp: assemble_brand_def map_of_js_set split: sum.splits)

lemma assemble_keeps_other_names:
  assumes "fold_result (assemble_brand ndm) ms finalDb = Inr out"
    and "\<forall>e \<in> set ms. canonicalName (snd e) \<noteq> c"
  shows "map_of out c = map_of finalDb c"
  using assms
proof (induction ms arbitrary: finalDb)
  case Nil
  then show ?case by simp
next
  case (Cons e ms)
  obtain nb m where e: "e = (nb, m)"
    by (cases e)
  from Cons.prems(1) e obtain db1 where a1: "assemble_brand ndm (nb, m) finalDb = Inr db1"
    and rest: "fold_result (assemble_brand ndm) ms db1 = Inr out"
    by (auto split: sum.splits)
  from assemble_brand_Inr [OF a1] Cons.prems(2) e have "map_of db1 c = map_of finalDb c"
    by auto
  moreover from Cons.IH [OF rest] Cons.prems(2) have "map_of out c = map_of db1 c"
    by simp
  ultimately show ?case
    by simp
qed

lemma assemble_last_brand:
  assumes "fold_result (assemble_brand ndm) (before @ (nb, m) # after) finalDb = Inr out"
    and "\<forall>e \<in> set after. canonicalName (snd e) \<noteq> canonicalName m"
  shows "\<exists>brandObj. fold_result (process_device ndm (canonicalName m)) (devices m) [] = Inr brandObj \<and>
           map_of out (canonicalName m) = Some (Brand brandObj)"
proof -
  from assms(1) obtain db0 db1 where "fold_result (assemble_brand ndm) before finalDb = Inr db0"
    and a1: "assemble_brand ndm (nb, m) db0 = Inr db1"
    and rest: "fold_result (assemble_brand ndm) after db1 = Inr out"
    by (auto simp: fold_result_append split: sum.splits)
  from assemble_brand_Inr [OF a1] obtain brandObj where
    bo: "fold_result (process_device ndm (canonicalName m)) (devices m) [] = Inr brandObj"
    and m1: "map_of db1 (canonicalName m) = Some (Brand brandObj)"
    by auto
  from assemble_keeps_other_names [OF rest assms(2)] m1 bo show ?thesis
    by simp
qed

section \<open>Properties of the two collecting loops\<close>

lemma replace_ws_empty: "r \<noteq> [] \<Longrightarrow> replace_ws r s = [] \<longleftrightarrow> s = []"
  by (cases s) auto

lemma normalize_id_empty: "normalize_id s = [] \<longleftrightarrow> s = []"
  by (simp add: normalize_id_def replace_ws_empty toLowerCase_def)

lemma push_variant_keeps:
  assumes "push_variant deviceId v ndm = Inr ndm'"
    and "\<forall>e \<in> set ndm. \<forall>w \<in> set (snd e). P w" and "P v"
  shows "\<forall>e \<in> set ndm'. \<forall>w \<in> set (snd e). P w"
proof -
  from assms(1) consider "ndm' = js_set ndm deviceId [v]"
    | vs where "js_get ndm deviceId = Own vs" "ndm' = js_set ndm deviceId (vs @ [v])"
    by (auto simp: push_variant_def split: lookup.splits)
  then show ?thesis
  proof cases
    case 1
    from js_set_all [of ndm "\<lambda>ws. \<forall>w \<in> set ws. P w" "[v]" deviceId] assms(2,3) 1
    show ?thesis
      by simp
  next
    case 2
    from js_get_OwnD [OF 2(1)] assms(2) have "\<forall>w \<in> set vs. P w"
      by auto
    with js_set_all [of ndm "\<lambda>ws. \<forall>w \<in> set ws. P w" "vs @ [v]" deviceId] assms(2,3) 2
    show ?thesis
      by simp
  qed
qed

lemma register_device_keeps:
  assumes "register_device nb nd deviceId ms = Inr ms'"
    and "\<forall>e \<in> set ms. Q (canonicalName (snd e))"
  shows "\<forall>e \<in> set ms'. Q (canonicalName (snd e))"
proof -
  from assms(1) obtain m ds where own: "js_get ms nb = Own m"
    and ms': "ms' = js_set ms nb (m\<lparr>devices := ds\<rparr>)"
    by (auto simp: register_device_def split: lookup.splits sum.splits)
  from js_get_OwnD [OF own] assms(2) have "Q (canonicalName m)"
    by auto
  with ms' assms(2) set_js_set_subset [of ms nb "m\<lparr>devices := ds\<rparr>"] show ?thesis
    by auto
qed

lemma enter_brand_target_keeps:
  assumes "enter_brand_target brandKey k ms = Inr ms'"
    and "\<forall>e \<in> set ms. Q (canonicalName (snd e))" and "Q (canonical k)"
  shows "\<forall>e \<in> set ms'. Q (canonicalName (snd e))"
proof -
  from assms(1) consider
      "ms' = js_set ms (normalized k) \<lparr>variants = [brandKey], canonicalName = canonical k, devices = []\<rparr>"
    | m where "js_get ms (normalized k) = Own m"
        "ms' = js_set ms (normalized k) (m\<lparr>variants := variants m @ [brandKey]\<rparr>)"
    by (auto simp: enter_brand_target_def split: lookup.splits)
  then show ?thesis
  proof cases
    case 1
    with assms(2,3)
      set_js_set_subset [of ms "normalized k"
        "\<lparr>variants = [brandKey], canonicalName = canonical k, devices = []\<rparr>"]
    show ?thesis
      by auto
  next
    case 2
    from js_get_OwnD [OF 2(1)] assms(2) have "Q (canonicalName m)"
      by auto
    with 2 assms(2)
      set_js_set_subset [of ms "normalized k" "m\<lparr>variants := variants m @ [brandKey]\<rparr>"]
    show ?thesis
      by auto
  qed
qed

lemma enter_brand_source_keeps:
  assumes "enter_brand_source brandKey k ms = Inr ms'"
    and "\<forall>e \<in> set ms. Q (canonicalName (snd e))" and "Q (canonical k)"
  shows "\<forall>e \<in> set ms'. Q (canonicalName (snd e))"
proof -
  from assms(1) consider
      "ms' = js_set ms (normalized k) \<lparr>variants = [brandKey], canonicalName = canonical k, devices = []\<rparr>"
    | m where "js_get ms (normalized k) = Own m"
        "ms' = js_set ms (normalized k) (m\<lparr>variants := variants m @ [brandKey]\<rparr>)"
    | "ms' = ms"
    by (auto simp: enter_brand_source_def split: lookup.splits if_splits)
  then show ?thesis
  proof cases
    case 1
    with assms(2,3)
      set_js_set_subset [of ms "normalized k"
        "\<lparr>variants = [brandKey], canonicalName = canonical k, devices = []\<rparr>"]
    show ?thesis
      by auto
  next
    case 2
    from js_get_OwnD [OF 2(1)] assms(2) have "Q (canonicalName m)"
      by auto
    with 2 assms(2)
      set_js_set_subset [of ms "normalized k" "m\<lparr>variants := variants m @ [brandKey]\<rparr>"]
    show ?thesis
      by auto
  next
    case 3
    with assms(2) show ?thesis
      by simp
  qed
qed

lemma alias_of_nonempty: "alias_of aliasMap rawKey = Some v \<Longrightarrow> v \<noteq> []"
  by (auto simp: alias_of_def split: option.splits if_splits)

lemma normalized_empty:
  assumes "normalizeAndMapKey rawKey aliasMap displayNames = Inr r" and "normalized r = []"
  shows "rawKey = []"
proof (cases "alias_of aliasMap rawKey")
  case None
  with normalizeAndMapKey_Inr [OF assms(1)] assms(2) have "normalize_id rawKey = []"
    by simp
  then show ?thesis
    by (simp add: normalize_id_empty)
next
  case (Some v)
  with normalizeAndMapKey_Inr [OF assms(1)] assms(2) have "normalize_id v = []"
    by simp
  with alias_of_nonempty [OF Some] show ?thesis
    by (simp add: normalize_id_empty)
qed

lemma getModelDisplayName_empty:
  "getModelDisplayName t brandKey modelKey = Inr [] \<Longrightarrow> modelKey = []"
  by (auto simp: getModelDisplayName_def split: lookup.splits if_splits)

lemma identify_device_display:
  assumes "identify_device t nb deviceKey = Inr (nd, displayDeviceName, deviceId)"
  shows "displayDeviceName \<noteq> [] \<or> deviceKey = []"
proof -
  from assms obtain k where k: "normalizeAndMapKey deviceKey (deviceMapping t) None = Inr k"
    and g: "getModelDisplayName t nb (normalized k) = Inr displayDeviceName"
    by (auto simp: identify_device_def split: sum.splits)
  show ?thesis
  proof (cases "displayDeviceName = []")
    case True
    with g have "normalized k = []"
      by (simp add: getModelDisplayName_empty)
    from normalized_empty [OF k this] show ?thesis
      by simp
  next
    case False
    then show ?thesis
      by simp
  qed
qed

lemma store_variant_keeps:
  assumes "store_variant nb nd deviceId v st = Inr st'"
    and "\<forall>e \<in> set (normalizedDeviceMap st). \<forall>w \<in> set (snd e). P w" and "P v"
    and "\<forall>e \<in> set (manufacturers st). Q (canonicalName (snd e))"
  shows "(\<forall>e \<in> set (normalizedDeviceMap st'). \<forall>w \<in> set (snd e). P w) \<and>
         (\<forall>e \<in> set (manufacturers st'). Q (canonicalName (snd e)))"
proof -
  from assms(1) obtain ndm ms where p: "push_variant deviceId v (normalizedDeviceMap st) = Inr ndm"
    and r: "register_device nb nd deviceId (manufacturers st) = Inr ms"
    and st': "st' = \<lparr>manufacturers = ms, normalizedDeviceMap = ndm\<rparr>"
    by (auto simp: store_variant_def split: sum.splits)
  from push_variant_keeps [OF p assms(2,3)] register_device_keeps [OF r assms(4)] st'
  show ?thesis
    by simp
qed

lemma target_device_keeps:
  assumes "target_device t brandKey k entry st = Inr st'"
    and "\<forall>e \<in> set (normalizedDeviceMap st). \<forall>w \<in> set (snd e). model_name w = canonicalDeviceName w"
    and "\<forall>e \<in> set (manufacturers st). Q (canonicalName (snd e))"
  shows "(\<forall>e \<in> set (normalizedDeviceMap st'). \<forall>w \<in> set (snd e). model_name w = canonicalDeviceName w) \<and>
         (\<forall>e \<in> set (manufacturers st'). Q (canonicalName (snd e)))"
proof -
  obtain deviceKey deviceData where e: "entry = (deviceKey, deviceData)"
    by (cases entry)
  from assms(1) e obtain nd display deviceId where
    i: "identify_device t (normalized k) deviceKey = Inr (nd, display, deviceId)"
    and s: "store_variant (normalized k) nd deviceId
              \<lparr>v_brandKey = brandKey, v_deviceKey = deviceKey,
               canonicalBrandName = canonical k, canonicalDeviceName = display,
               data = createStandardDevice deviceData
                         (str_or (raw_brand deviceData) (canonical k))
                         (str_or (raw_device_name deviceData) display)\<rparr> st = Inr st'"
    by (auto simp: target_device_def split: sum.splits prod.splits)
  from identify_device_display [OF i]
  have "model_name \<lparr>v_brandKey = brandKey, v_deviceKey = deviceKey,
               canonicalBrandName = canonical k, canonicalDeviceName = display,
               data = createStandardDevice deviceData
                         (str_or (raw_brand deviceData) (canonical k))
                         (str_or (raw_device_name deviceData) display)\<rparr> = display"
    by (auto simp: model_name_def)
  then show ?thesis
    using store_variant_keeps [OF s assms(2) _ assms(3)] by simp
qed

lemma source_device_keeps:
  assumes "source_device t brandKey k entry st = Inr st'"
    and "\<forall>e \<in> set (normalizedDeviceMap st). \<forall>w \<in> set (snd e). model_name w = canonicalDeviceName w"
    and "\<forall>e \<in> set (manufacturers st). Q (canonicalName (snd e))"
  shows "(\<forall>e \<in> set (normalizedDeviceMap st'). \<forall>w \<in> set (snd e). model_name w = canonicalDeviceName w) \<and>
         (\<forall>e \<in> set (manufacturers st'). Q (canonicalName (snd e)))"
proof -
  obtain deviceKey deviceData where e: "entry = (deviceKey, deviceData)"
    by (cases entry)
  from assms(1) e obtain nd display deviceId where
    i: "identify_device t (normalized k) deviceKey = Inr (nd, display, deviceId)"
    and s: "store_variant (normalized k) nd deviceId
              \<lparr>v_brandKey = brandKey, v_deviceKey = deviceKey,
               canonicalBrandName = canonical k, canonicalDeviceName = display,
               data = createStandardDevice (normalize_pc deviceData) (canonical k) display\<rparr> st = Inr st'"
    by (auto simp: source_device_def split: sum.splits prod.splits)
  from identify_device_display [OF i]
  have "model_name \<lparr>v_brandKey = brandKey, v_deviceKey = deviceKey,
               canonicalBrandName = canonical k, canonicalDeviceName = display,
               data = createStandardDevice (normalize_pc deviceData) (canonical k) display\<rparr> = display"
    by (auto simp: model_name_def)
  then show ?thesis
    using store_variant_keeps [OF s assms(2) _ assms(3)] by simp
qed

lemma target_brand_keeps:
  assumes "target_brand t entry st = Inr st'"
    and "\<forall>e \<in> set (normalizedDeviceMap st). \<forall>w \<in> set (snd e). model_name w = canonicalDeviceName w"
    and "\<forall>e \<in> set (manufacturers st). Q (canonicalName (snd e))"
    and "\<And>r. fst entry \<notin> set reservedKeys \<Longrightarrow>
           normalizeAndMapKey (fst entry) (manufacturerMapping t) (Some (brandDisplayNames t)) = Inr r \<Longrightarrow>
           Q (canonical r)"
  shows "(\<forall>e \<in> set (normalizedDeviceMap st'). \<forall>w \<in> set (snd e). model_name w = canonicalDeviceName w) \<and>
         (\<forall>e \<in> set (manufacturers st'). Q (canonicalName (snd e)))"
proof -
  obtain brandKey brandData where e: "entry = (brandKey, brandData)"
    by (cases entry)
  show ?thesis
  proof (cases "brandKey \<in> set reservedKeys")
    case True
    with assms(1) e have "st' = st"
      by (simp add: target_brand_def)
    with assms(2,3) show ?thesis
      by simp
  next
    case False
    with assms(1) e obtain k ms where
      k: "normalizeAndMapKey brandKey (manufacturerMapping t) (Some (brandDisplayNames t)) = Inr k"
      and b: "enter_brand_target brandKey k (manufacturers st) = Inr ms"
      and f: "fold_result (target_device t brandKey k) (entries_of brandData)
                (st\<lparr>manufacturers := ms\<rparr>) = Inr st'"
      by (auto simp: target_brand_def split: sum.splits)
    from assms(4) [of k] e False k have q: "Q (canonical k)"
      by simp
    have start: "(\<forall>e \<in> set (normalizedDeviceMap (st\<lparr>manufacturers := ms\<rparr>)).
                    \<forall>w \<in> set (snd e). model_name w = canonicalDeviceName w) \<and>
                 (\<forall>e \<in> set (manufacturers (st\<lparr>manufacturers := ms\<rparr>)). Q (canonicalName (snd e)))"
      using assms(2) enter_brand_target_keeps [OF b assms(3) q] by simp
    show ?thesis
      by (rule fold_result_invariant
            [where P = "(\<lambda>s. (\<forall>e \<in> set (normalizedDeviceMap s). \<forall>w \<in> set (snd e). model_name w = canonicalDeviceName w) \<and>
         (\<forall>e \<in> set (manufacturers s). Q (canonicalName (snd e))))",
             OF f start])
         (blast dest: target_device_keeps)
  qed
qed

lemma source_brand_keeps:
  assumes "source_brand t entry st = Inr st'"
    and "\<forall>e \<in> set (normalizedDeviceMap st). \<forall>w \<in> set (snd e). model_name w = canonicalDeviceName w"
    and "\<forall>e \<in> set (manufacturers st). Q (canonicalName (snd e))"
    and "\<And>r. normalizeAndMapKey (fst entry) (manufacturerMapping t) (Some (brandDisplayNames t)) = Inr r \<Longrightarrow>
           Q (canonical r)"
  shows "(\<forall>e \<in> set (normalizedDeviceMap st'). \<forall>w \<in> set (snd e). model_name w = canonicalDeviceName w) \<and>
         (\<forall>e \<in> set (manufacturers st'). Q (canonicalName (snd e)))"
proof -
  obtain brandKey brandData where e: "entry = (brandKey, brandData)"
    by (cases entry)
  from assms(1) e obtain k ms where
    k: "normalizeAndMapKey brandKey (manufacturerMapping t) (Some (brandDisplayNames t)) = Inr k"
    and b: "enter_brand_source brandKey k (manufacturers st) = Inr ms"
    and f: "fold_result (source_device t brandKey k) (entries_of brandData)
              (st\<lparr>manufacturers := ms\<rparr>) = Inr st'"
    by (auto simp: source_brand_def split: sum.splits)
  from assms(4) [of k] e k have q: "Q (canonical k)"
    by simp
  have start: "(\<forall>e \<in> set (normalizedDeviceMap (st\<lparr>manufacturers := ms\<rparr>)).
                  \<forall>w \<in> set (snd e). model_name w = canonicalDeviceName w) \<and>
               (\<forall>e \<in> set (manufacturers (st\<lparr>manufacturers := ms\<rparr>)). Q (canonicalName (snd e)))"
    using assms(2) enter_brand_source_keeps [OF b assms(3) q] by simp
  show ?thesis
    by (rule fold_result_invariant
          [where P = "(\<lambda>s. (\<forall>e \<in> set (normalizedDeviceMap s). \<forall>w \<in> set (snd e). model_name w = canonicalDeviceName w) \<and>
         (\<forall>e \<in> set (manufacturers s). Q (canonicalName (snd e))))",
           OF f start])
       (blast dest: source_device_keeps)
qed

lemma collect_invariant:
  assumes "collect t targetDb sourceDb = Inr st"
    and "\<And>brandKey r. brandKey \<in> fst ` set targetDb \<Longrightarrow> brandKey \<notin> set reservedKeys \<Longrightarrow>
           normalizeAndMapKey brandKey (manufacturerMapping t) (Some (brandDisplayNames t)) = Inr r \<Longrightarrow>
           Q (canonical r)"
    and "\<And>brandKey r. brandKey \<in> fst ` set sourceDb \<Longrightarrow>
           normalizeAndMapKey brandKey (manufacturerMapping t) (Some (brandDisplayNames t)) = Inr r \<Longrightarrow>
           Q (canonical r)"
  shows "(\<forall>e \<in> set (normalizedDeviceMap st). \<forall>w \<in> set (snd e). model_name w = canonicalDeviceName w) \<and>
         (\<forall>e \<in> set (manufacturers st). Q (canonicalName (snd e)))"
proof -
  from assms(1) obtain st1 where
    f1: "fold_result (target_brand t) targetDb initial_state = Inr st1"
    and f2: "fold_result (source_brand t) sourceDb st1 = Inr st"
    by (auto simp: collect_def split: sum.splits)
  have start: "(\<forall>e \<in> set (normalizedDeviceMap initial_state).
                  \<forall>w \<in> set (snd e). model_name w = canonicalDeviceName w) \<and>
               (\<forall>e \<in> set (manufacturers initial_state). Q (canonicalName (snd e)))"
    by (simp add: initial_state_def)
  have mid: "(\<forall>e \<in> set (normalizedDeviceMap st1).
                \<forall>w \<in> set (snd e). model_name w = canonicalDeviceName w) \<and>
             (\<forall>e \<in> set (manufacturers st1). Q (canonicalName (snd e)))"
  proof (rule fold_result_invariant
          [where P = "(\<lambda>s. (\<forall>e \<in> set (normalizedDeviceMap s). \<forall>w \<in> set (snd e). model_name w = canonicalDeviceName w) \<and>
         (\<forall>e \<in> set (manufacturers s). Q (canonicalName (snd e))))",
           OF f1 start])
    fix x a b
    assume x: "x \<in> set targetDb" and a: "(\<forall>e \<in> set (normalizedDeviceMap a).
                \<forall>w \<in> set (snd e). model_name w = canonicalDeviceName w) \<and>
             (\<forall>e \<in> set (manufacturers a). Q (canonicalName (snd e)))"
      and step: "target_brand t x a = Inr b"
    from x have "fst x \<in> fst ` set targetDb"
      by simp
    with assms(2) have "\<And>r. fst x \<notin> set reservedKeys \<Longrightarrow>
           normalizeAndMapKey (fst x) (manufacturerMapping t) (Some (brandDisplayNames t)) = Inr r \<Longrightarrow>
           Q (canonical r)"
      by blast
    with target_brand_keeps [OF step] a
    show "(\<forall>e \<in> set (normalizedDeviceMap b).
                \<forall>w \<in> set (snd e). model_name w = canonicalDeviceName w) \<and>
             (\<forall>e \<in> set (manufacturers b). Q (canonicalName (snd e)))"
      by blast
  qed
  show ?thesis
  proof (rule fold_result_invariant
          [where P = "(\<lambda>s. (\<forall>e \<in> set (normalizedDeviceMap s). \<forall>w \<in> set (snd e). model_name w = canonicalDeviceName w) \<and>
         (\<forall>e \<in> set (manufacturers s). Q (canonicalName (snd e))))",
           OF f2 mid])
    fix x a b
    assume x: "x \<in> set sourceDb" and a: "(\<forall>e \<in> set (normalizedDeviceMap a).
                \<forall>w \<in> set (snd e). model_name w = canonicalDeviceName w) \<and>
             (\<forall>e \<in> set (manufacturers a). Q (canonicalName (snd e)))"
      and step: "source_brand t x a = Inr b"
    from x have "fst x \<in> fst ` set sourceDb"
      by simp
    with assms(3) have "\<And>r.
           normalizeAndMapKey (fst x) (manufacturerMapping t) (Some (brandDisplayNames t)) = Inr r \<Longrightarrow>
           Q (canonical r)"
      by blast
    with source_brand_keeps [OF step] a
    show "(\<forall>e \<in> set (normalizedDeviceMap b).
                \<forall>w \<in> set (snd e). model_name w = canonicalDeviceName w) \<and>
             (\<forall>e \<in> set (manufacturers b). Q (canonicalName (snd e)))"
      by blast
  qed
qed



section \<open>Properties of the resolution engine\<close>


text \<open>
  C9. Let two normalized brands have the same canonical display name, the second one
  being the last brand with that name in the order of the final assembly. Then the step of
  the second brand replaces whatever the output holds under the name, the entries of the
  first brand included, by the object it builds from the empty object out of its own
  devices; and that object is what the final database holds under the name.
\<close>

theorem later_brand_replaces_earlier:
  assumes "assemble st finalDb = Inr out"
    and "manufacturers st = before @ (nb1, m1) # between @ (nb2, m2) # after"
    and "nb1 \<noteq> nb2"
    and "canonicalName m1 = canonicalName m2"
    and "\<forall>e \<in> set after. canonicalName (snd e) \<noteq> canonicalName m2"
  shows "\<exists>brandObj.
           fold_result (process_device (normalizedDeviceMap st) (canonicalName m2)) (devices m2) []
             = Inr brandObj \<and>
           (\<forall>db db'. assemble_brand (normalizedDeviceMap st) (nb2, m2) db = Inr db' \<longrightarrow>
              map_of db' (canonicalName m1) = Some (Brand brandObj)) \<and>
           map_of out (canonicalName m1) = Some (Brand brandObj)"
proof -
  have "fold_result (assemble_brand (normalizedDeviceMap st))
          ((before @ (nb1, m1) # between) @ (nb2, m2) # after) finalDb = Inr out"
    using assms(1,2) by (simp add: assemble_def)
  from assemble_last_brand [OF this assms(5)] obtain brandObj where
    bo: "fold_result (process_device (normalizedDeviceMap st) (canonicalName m2)) (devices m2) []
           = Inr brandObj"
    and out: "map_of out (canonicalName m2) = Some (Brand brandObj)"
    by blast
  have "map_of db' (canonicalName m1) = Some (Brand brandObj)"
    if "assemble_brand (normalizedDeviceMap st) (nb2, m2) db = Inr db'" for db db'
    using assemble_brand_Inr [OF that] bo assms(4) by auto
  with bo out assms(4) show ?thesis
    by auto
qed

lemma collect_twin:
  "collect_script (Parsed twin_config) twin_target twin_source = Inr twin_state"
  by code_simp

lemma assemble_twin:
  "assemble twin_state [] =
     Inr [(''Foo Bar'', Brand [(''y'', createStandardDevice empty_device ''Foo Bar'' ''y'')])]"
  by code_simp

theorem later_brand_replaces_earlier_witness:
  "collect_script (Parsed twin_config) twin_target twin_source = Inr twin_state \<and>
   map (\<lambda>e. (fst e, canonicalName (snd e))) (manufacturers twin_state) =
     [(''fb1'', ''Foo Bar''), (''fb2'', ''Foo Bar'')] \<and>
   merge_script (Parsed twin_config) twin_target twin_source =
     Inr [(''Foo Bar'', Brand [(''y'', createStandardDevice empty_device ''Foo Bar'' ''y'')])] \<and>
   (\<exists>brandObj.
      fold_result (process_device (normalizedDeviceMap twin_state) ''Foo Bar'') [(''y'', ''fb2_y'')] []
        = Inr brandObj \<and>
      map_of [(''Foo Bar'', Brand [(''y'', createStandardDevice empty_device ''Foo Bar'' ''y'')])]
        ''Foo Bar'' = Some (Brand brandObj))"
proof -
  have ms: "manufacturers twin_state =
      [] @ (''fb1'', \<lparr>variants = [''fb1''], canonicalName = ''Foo Bar'', devices = [(''x'', ''fb1_x'')]\<rparr>)
         # [] @ (''fb2'', \<lparr>variants = [''fb2''], canonicalName = ''Foo Bar'', devices = [(''y'', ''fb2_y'')]\<rparr>)
         # []"
    by (simp add: twin_state_def)
  have r: "merge_script (Parsed twin_config) twin_target twin_source =
     Inr [(''Foo Bar'', Brand [(''y'', createStandardDevice empty_device ''Foo Bar'' ''y'')])]"
    by code_simp
  have n: "map (\<lambda>e. (fst e, canonicalName (snd e))) (manufacturers twin_state) =
     [(''fb1'', ''Foo Bar''), (''fb2'', ''Foo Bar'')]"
    by (simp add: twin_state_def)
  from later_brand_replaces_earlier [OF assemble_twin ms]
  have "\<exists>brandObj.
      fold_result (process_device (normalizedDeviceMap twin_state) ''Foo Bar'') [(''y'', ''fb2_y'')] []
        = Inr brandObj \<and>
      map_of [(''Foo Bar'', Brand [(''y'', createStandardDevice empty_device ''Foo Bar'' ''y'')])]
        ''Foo Bar'' = Some (Brand brandObj)"
    by auto
  with collect_twin n r show ?thesis
    by blast
qed

text \<open>
  The grouping of a bucket by model name. Take the result of a run and a brand that is the
  last one with its display name in the order of the final assembly. Then the final
  database holds an object under that display name in which
  \<^item> every record of every bucket of the brand has an entry under its canonical display
    device name (which is also the name the script groups by), so that records with
    different names have different entries, and
  \<^item> every entry, under a name \<open>n\<close>, is the merge of the records named \<open>n\<close> of one bucket of
    the brand and of no other record.
\<close>

theorem models_kept_apart:
  assumes "collect t targetDb sourceDb = Inr st"
    and "assemble st (metadata_of targetDb) = Inr out"
    and "manufacturers st = before @ (nb, m) # after"
    and "\<forall>e \<in> set after. canonicalName (snd e) \<noteq> canonicalName m"
  shows "\<exists>brandObj.
           map_of out (canonicalName m) = Some (Brand brandObj) \<and>
           (\<forall>e \<in> set (devices m). \<exists>vs.
              js_get (normalizedDeviceMap st) (snd e) = Own vs \<and>
              (\<forall>v \<in> set vs. model_name v = canonicalDeviceName v \<and>
                 (\<exists>r. map_of brandObj (canonicalDeviceName v) = Some r))) \<and>
           (\<forall>n r. map_of brandObj n = Some r \<longrightarrow>
              (\<exists>e \<in> set (devices m). \<exists>vs.
                 js_get (normalizedDeviceMap st) (snd e) = Own vs \<and>
                 group_of n vs \<noteq> [] \<and>
                 (\<forall>v \<in> set vs. (v \<in> set (group_of n vs)) = (canonicalDeviceName v = n)) \<and>
                 merge_model (canonicalName m) n (group_of n vs) = Inr r))"
proof -
  have names: "\<forall>e \<in> set (normalizedDeviceMap st). \<forall>w \<in> set (snd e).
                 model_name w = canonicalDeviceName w"
    using collect_invariant [OF assms(1), of "\<lambda>_. True"] by simp
  have named: "model_name v = canonicalDeviceName v"
    if "js_get (normalizedDeviceMap st) k = Own vs" and "v \<in> set vs" for k vs v
    using js_get_OwnD [OF that(1)] names that(2) by auto
  have "fold_result (assemble_brand (normalizedDeviceMap st)) (before @ (nb, m) # after)
          (metadata_of targetDb) = Inr out"
    using assms(2,3) by (simp add: assemble_def)
  from assemble_last_brand [OF this assms(4)] obtain brandObj where
    bo: "fold_result (process_device (normalizedDeviceMap st) (canonicalName m)) (devices m) []
           = Inr brandObj"
    and out: "map_of out (canonicalName m) = Some (Brand brandObj)"
    by blast
  note entries = brand_object_entries [OF bo]
  have present: "\<exists>vs. js_get (normalizedDeviceMap st) (snd e) = Own vs \<and>
              (\<forall>v \<in> set vs. model_name v = canonicalDeviceName v \<and>
                 (\<exists>r. map_of brandObj (canonicalDeviceName v) = Some r))"
    if "e \<in> set (devices m)" for e
  proof -
    from entries that obtain vs where own: "js_get (normalizedDeviceMap st) (snd e) = Own vs"
      and all: "\<forall>v \<in> set vs. \<exists>r. map_of brandObj (model_name v) = Some r"
      by blast
    have "model_name v = canonicalDeviceName v \<and>
          (\<exists>r. map_of brandObj (canonicalDeviceName v) = Some r)" if "v \<in> set vs" for v
      using named [OF own that] all that by auto
    with own show ?thesis
      by blast
  qed
  have origin: "\<exists>e \<in> set (devices m). \<exists>vs.
                 js_get (normalizedDeviceMap st) (snd e) = Own vs \<and>
                 group_of n vs \<noteq> [] \<and>
                 (\<forall>v \<in> set vs. (v \<in> set (group_of n vs)) = (canonicalDeviceName v = n)) \<and>
                 merge_model (canonicalName m) n (group_of n vs) = Inr r"
    if "map_of brandObj n = Some r" for n r
  proof -
    from entries that obtain e vs where e: "e \<in> set (devices m)"
      and own: "js_get (normalizedDeviceMap st) (snd e) = Own vs"
      and g: "group_of n vs \<noteq> []"
      and mm: "merge_model (canonicalName m) n (group_of n vs) = Inr r"
      by fastforce
    have "(v \<in> set (group_of n vs)) = (canonicalDeviceName v = n)" if "v \<in> set vs" for v
      using named [OF own that] that by (simp add: group_of_def)
    with e own g mm show ?thesis
      by blast
  qed
  from out present origin show ?thesis
    by blast
qed

lemma collect_collide: "collect no_tables collide_target collide_source = Inr collide_state"
  by code_simp

lemma assemble_collide:
  "assemble collide_state (metadata_of collide_target) =
     Inr [(''a_b'', Brand [(''c'', createStandardDevice empty_device ''a_b'' ''c''),
                           (''b_c'', createStandardDevice empty_device ''a_b'' ''b_c'')]),
          (''a'', Brand [(''c'', createStandardDevice empty_device ''a'' ''c''),
                         (''b_c'', createStandardDevice empty_device ''a'' ''b_c'')])]"
  by code_simp

theorem models_kept_apart_example:
  "collect no_tables collide_target collide_source = Inr collide_state \<and>
   normalizedDeviceMap collide_state =
     [(''a_b_c'', [plain_variant ''a_b'' ''c'' ''a_b'' ''c'',
                   plain_variant ''a'' ''b_c'' ''a'' ''b_c''])] \<and>
   (\<exists>brandObj.
      map_of [(''a_b'', Brand [(''c'', createStandardDevice empty_device ''a_b'' ''c''),
                               (''b_c'', createStandardDevice empty_device ''a_b'' ''b_c'')]),
              (''a'', Brand [(''c'', createStandardDevice empty_device ''a'' ''c''),
                             (''b_c'', createStandardDevice empty_device ''a'' ''b_c'')])] ''a''
        = Some (Brand brandObj) \<and>
      (\<exists>r. map_of brandObj ''c'' = Some r) \<and>
      (\<exists>r. map_of brandObj ''b_c'' = Some r))"
proof -
  have ms: "manufacturers collide_state =
      [(''a_b'', \<lparr>variants = [''a_b''], canonicalName = ''a_b'', devices = [(''c'', ''a_b_c'')]\<rparr>)]
      @ (''a'', \<lparr>variants = [''a''], canonicalName = ''a'', devices = [(''b_c'', ''a_b_c'')]\<rparr>) # []"
    by (simp add: collide_state_def)
  have ndm: "normalizedDeviceMap collide_state =
     [(''a_b_c'', [plain_variant ''a_b'' ''c'' ''a_b'' ''c'',
                   plain_variant ''a'' ''b_c'' ''a'' ''b_c''])]"
    by (simp add: collide_state_def)
  have own: "js_get (normalizedDeviceMap collide_state) ''a_b_c'' =
     Own [plain_variant ''a_b'' ''c'' ''a_b'' ''c'', plain_variant ''a'' ''b_c'' ''a'' ''b_c'']"
    by (simp add: ndm js_get_def)
  from models_kept_apart [OF collect_collide assemble_collide ms]
  obtain brandObj where
    out: "map_of [(''a_b'', Brand [(''c'', createStandardDevice empty_device ''a_b'' ''c''),
                               (''b_c'', createStandardDevice empty_device ''a_b'' ''b_c'')]),
              (''a'', Brand [(''c'', createStandardDevice empty_device ''a'' ''c''),
                             (''b_c'', createStandardDevice empty_device ''a'' ''b_c'')])] ''a''
        = Some (Brand brandObj)"
    and present: "\<exists>vs. js_get (normalizedDeviceMap collide_state) ''a_b_c'' = Own vs \<and>
              (\<forall>v \<in> set vs. model_name v = canonicalDeviceName v \<and>
                 (\<exists>r. map_of brandObj (canonicalDeviceName v) = Some r))"
    by auto
  from present own have "(\<exists>r. map_of brandObj ''c'' = Some r) \<and> (\<exists>r. map_of brandObj ''b_c'' = Some r)"
    by (auto simp: plain_variant_def)
  with collect_collide ndm out show ?thesis
    by blast
qed

text \<open>
  C3. Records of one bucket with different canonical display names are never merged, but
  they do not always have their entries in the final database. The target device \<^verbatim>\<open>c\<close> of
  the brand \<^verbatim>\<open>a_b\<close> and the source device \<^verbatim>\<open>b_c\<close> of the brand \<^verbatim>\<open>a\<close> share the bucket
  \<^verbatim>\<open>a_b_c\<close> and have the display names \<^verbatim>\<open>c\<close> and \<^verbatim>\<open>b_c\<close>. The configuration names two
  further brands, which come later and have no devices, like the first two. The step of
  each later brand assigns a new empty object under the shared display name, and the final
  database has no entry for either record.
\<close>

theorem bucket_entries_wiped:
  "collect_script (Parsed wiping_config) collide_target wiping_source = Inr wiped_state \<and>
   normalizedDeviceMap wiped_state =
     [(''a_b_c'', [plain_variant ''a_b'' ''c'' ''Alpha Beta'' ''c'',
                   plain_variant ''a'' ''b_c'' ''Alpha'' ''b_c''])] \<and>
   canonicalDeviceName (plain_variant ''a_b'' ''c'' ''Alpha Beta'' ''c'') = ''c'' \<and>
   canonicalDeviceName (plain_variant ''a'' ''b_c'' ''Alpha'' ''b_c'') = ''b_c'' \<and>
   merge_script (Parsed wiping_config) collide_target wiping_source =
     Inr [(''Alpha Beta'', Brand []), (''Alpha'', Brand [])]"
  by code_simp







section \<open>The merge without aliases returns\<close>





















section \<open>A missing or malformed alias configuration\<close>






end
